theory Spec2Isabelle
  imports Complex_Main "HOL-Library.Multiset"
begin

section \<open>Data model\<close>

text \<open>
  Modelled from the spec: the \<^verbatim>\<open>RESULT\<close> object of \<^verbatim>\<open>shared/constants.js\<close>,
  a file that is missing. The spec lists the closed enum
  \<^verbatim>\<open>UNPLAYED | PLAYER1 | PLAYER2 | DRAW | BYE\<close>, and the browser-only copy of the
  program declares the same object, each value being the string of its own name.
\<close>

datatype result = UNPLAYED | PLAYER1 | PLAYER2 | DRAW | BYE

fun result_value :: "result \<Rightarrow> string" where
  "result_value UNPLAYED = ''UNPLAYED''"
| "result_value PLAYER1 = ''PLAYER1''"
| "result_value PLAYER2 = ''PLAYER2''"
| "result_value DRAW = ''DRAW''"
| "result_value BYE = ''BYE''"

text \<open>
  A row of the \<^verbatim>\<open>players\<close> table as \<^verbatim>\<open>getPlayers\<close> returns it. Player ids
  are JavaScript numbers holding integer row ids; \<^verbatim>\<open>add_score\<close> is a finite number
  (\<^verbatim>\<open>REAL NOT NULL\<close>), modelled as an exact rational. \<^verbatim>\<open>full_name\<close> may be NULL.
\<close>

record player =
  player_id :: nat
  name :: string
  fullName :: "string option"
  contact :: "string option"
  department :: "string option"
  registerNumber :: "string option"
  seed :: int
  addScore :: rat

text \<open>
  A pairing as \<^verbatim>\<open>getRounds\<close> returns it; \<^verbatim>\<open>player2 = None\<close> is SQL NULL. The two
  display names that \<^verbatim>\<open>getRounds\<close> attaches are read by no function modelled here and
  are left out.
\<close>

record pairing =
  match_id :: nat
  table :: nat
  player1 :: nat
  player2 :: "nat option"
  result :: result

record round =
  round_id :: nat
  roundNumber :: nat
  pairings :: "pairing list"

text \<open>
  JavaScript truthiness of a player id: \<^verbatim>\<open>!x\<close> holds for \<^verbatim>\<open>null\<close> and for the
  number \<^verbatim>\<open>0\<close>.
\<close>

definition truthy :: "nat option \<Rightarrow> bool" where
  "truthy x = (case x of None \<Rightarrow> False | Some n \<Rightarrow> n \<noteq> 0)"

section \<open>gatherOpponentHistory\<close>

type_synonym history = "nat \<rightharpoonup> nat set"

text \<open>\<^verbatim>\<open>history.get(a)?.add(b)\<close>: nothing happens when \<^verbatim>\<open>a\<close> is not a key.\<close>

definition history_add :: "history \<Rightarrow> nat \<Rightarrow> nat \<Rightarrow> history" where
  "history_add h a b = (case h a of None \<Rightarrow> h | Some s \<Rightarrow> h(a \<mapsto> insert b s))"

definition history_pairing :: "history \<Rightarrow> pairing \<Rightarrow> history" where
  "history_pairing h p =
     (if \<not> truthy (Some (player1 p)) \<or> \<not> truthy (player2 p) then h
      else history_add (history_add h (player1 p) (the (player2 p))) (the (player2 p)) (player1 p))"

definition history_round :: "history \<Rightarrow> round \<Rightarrow> history" where
  "history_round h r = foldl history_pairing h (pairings r)"

definition gatherOpponentHistory :: "player list \<Rightarrow> round list \<Rightarrow> history" where
  "gatherOpponentHistory players rounds =
     foldl history_round (map_of (map (\<lambda>player. (player_id player, {})) players)) rounds"

section \<open>canGenerateNextRound\<close>

definition canGenerateNextRound :: "round list \<Rightarrow> bool" where
  "canGenerateNextRound rounds =
     (if length rounds = 0 then False
      else list_all (\<lambda>round. list_all (\<lambda>pairing. result pairing \<noteq> UNPLAYED) (pairings round)) rounds)"

section \<open>createSwissPairings\<close>

text \<open>\<^verbatim>\<open>opponentHistory.get(player)?.has(opponent)\<close>, undefined (falsy) for a missing key.\<close>

definition met :: "history \<Rightarrow> nat \<Rightarrow> nat \<Rightarrow> bool" where
  "met h player opponent = (case h player of None \<Rightarrow> False | Some s \<Rightarrow> opponent \<in> s)"

text \<open>
  A \<^verbatim>\<open>for\<close> loop whose body returns from the enclosing function as soon as a
  recursive call succeeds: the first index whose body yields a solution decides.
\<close>

fun first_some :: "('a \<Rightarrow> 'b option) \<Rightarrow> 'a list \<Rightarrow> 'b option" where
  "first_some f [] = None"
| "first_some f (x # xs) = (case f x of Some y \<Rightarrow> Some y | None \<Rightarrow> first_some f xs)"

lemma first_some_cong [fundef_cong]:
  "xs = ys \<Longrightarrow> (\<And>x. x \<in> set ys \<Longrightarrow> f x = g x) \<Longrightarrow> first_some f xs = first_some g ys"
  by (induction ys arbitrary: xs) (auto split: option.splits)

text \<open>\<^verbatim>\<open>rest.slice(0, i).concat(rest.slice(i + 1))\<close>\<close>

definition remaining :: "nat list \<Rightarrow> nat \<Rightarrow> nat list" where
  "remaining rest i = take i rest @ drop (i + 1) rest"

text \<open>
  The inner function \<^verbatim>\<open>backtrack(available, currentPairs)\<close>. It returns a boolean and
  assigns \<^verbatim>\<open>solution\<close> just before the only \<^verbatim>\<open>return true\<close> that does not come from
  a recursive call, so \<^verbatim>\<open>Some s\<close> stands for "returns true with \<^verbatim>\<open>solution = s\<close>" and
  \<^verbatim>\<open>None\<close> for "returns false". With a one-element \<^verbatim>\<open>available\<close> both loops have
  nothing to run over and the function returns false.
\<close>

function backtrack :: "history \<Rightarrow> nat list \<Rightarrow> nat list list \<Rightarrow> nat list list option" where
  "backtrack h [] currentPairs = Some currentPairs"
| "backtrack h (player # rest) currentPairs =
     (case first_some
             (\<lambda>i. if met h player (rest ! i) then None
                  else backtrack h (remaining rest i) (currentPairs @ [[player, rest ! i]]))
             [0..<length rest] of
        Some s \<Rightarrow> Some s
      | None \<Rightarrow>
          first_some
            (\<lambda>i. backtrack h (remaining rest i) (currentPairs @ [[player, rest ! i]]))
            [0..<length rest])"
  by pat_completeness auto
termination
  by (relation "measure (\<lambda>(h, available, currentPairs). length available)")
     (auto simp: remaining_def)

datatype error = Error string

definition createSwissPairings :: "nat list \<Rightarrow> history \<Rightarrow> error + nat list list" where
  "createSwissPairings playerIds opponentHistory =
     (let (pool, byePlayer) =
            (if length playerIds mod 2 = 1 then (butlast playerIds, Some (last playerIds))
             else (playerIds, None))
      in case backtrack opponentHistory pool [] of
           None \<Rightarrow> Inl (Error ''Unable to create Swiss pairings without conflicts.'')
         | Some solution \<Rightarrow>
             Inr (case byePlayer of None \<Rightarrow> solution | Some b \<Rightarrow> solution @ [[b]]))"

section \<open>recalculateStandings\<close>

text \<open>
  An element of the \<^verbatim>\<open>opponents\<close> set: a player id or the string \<^verbatim>\<open>'Bye'\<close>.
  A JavaScript \<^verbatim>\<open>Set\<close> keeps insertion order and ignores a value it already holds.
\<close>

datatype opponent = Opponent nat | ByeMarker

definition set_add :: "'a \<Rightarrow> 'a list \<Rightarrow> 'a list" where
  "set_add x xs = (if x \<in> set xs then xs else xs @ [x])"

text \<open>
  Numbers are exact rationals: the counters are natural numbers, \<^verbatim>\<open>basePoints\<close> is a
  sum of \<^verbatim>\<open>1\<close> and \<^verbatim>\<open>0.5\<close> (exact in binary floating point), and the quotient and
  the sum with \<^verbatim>\<open>addScore\<close> are taken unrounded.
\<close>

record stats =
  stat_id :: nat
  stat_seed :: int
  stat_name :: string
  displayName :: string
  stat_addScore :: rat
  opponents :: "opponent list"
  wins :: nat
  losses :: nat
  draws :: nat
  byes :: nat
  basePoints :: rat

record standing = stats +
  gamesPlayed :: nat
  totalPoints :: rat
  winPercent :: rat
  opponentSummaries :: "string list"

text \<open>
  \<^verbatim>\<open>statsMap\<close> is a JavaScript \<^verbatim>\<open>Map\<close>: keys in insertion order, \<^verbatim>\<open>set\<close> on an
  existing key replaces the value in place. The objects in it are mutated through
  references obtained by \<^verbatim>\<open>get\<close>; \<open>map_modify\<close> is that mutation, addressed by key,
  and does nothing for a key that is absent (\<^verbatim>\<open>if (p2Stats)\<close>).
\<close>

type_synonym stats_map = "(nat \<times> stats) list"

fun map_set :: "nat \<Rightarrow> 'v \<Rightarrow> (nat \<times> 'v) list \<Rightarrow> (nat \<times> 'v) list" where
  "map_set k v [] = [(k, v)]"
| "map_set k v ((k', v') # m) = (if k' = k then (k, v) # m else (k', v') # map_set k v m)"

definition map_has :: "(nat \<times> 'v) list \<Rightarrow> nat \<Rightarrow> bool" where
  "map_has m k = (map_of m k \<noteq> None)"

definition map_modify :: "nat \<Rightarrow> ('v \<Rightarrow> 'v) \<Rightarrow> (nat \<times> 'v) list \<Rightarrow> (nat \<times> 'v) list" where
  "map_modify k f m = map (\<lambda>(k', v). if k' = k then (k', f v) else (k', v)) m"

definition initial_stats :: "player \<Rightarrow> stats" where
  "initial_stats player =
     \<lparr> stat_id = player_id player,
       stat_seed = seed player,
       stat_name = (case fullName player of
                      None \<Rightarrow> name player
                    | Some f \<Rightarrow> if f = [] then name player else f),
       displayName = name player,
       stat_addScore = addScore player,
       opponents = [],
       wins = 0, losses = 0, draws = 0, byes = 0,
       basePoints = 0 \<rparr>"

text \<open>The body of the inner \<^verbatim>\<open>forEach\<close>: one pairing applied to the map.\<close>

definition stats_pairing :: "stats_map \<Rightarrow> pairing \<Rightarrow> stats_map" where
  "stats_pairing statsMap pairing =
     (let p1 = player1 pairing;
          p2 = player2 pairing
      in if \<not> map_has statsMap p1 then statsMap
         else
           let on_p1 = map_modify p1;
               on_p2 = (\<lambda>f m. if truthy p2 then map_modify (the p2) f m else m);
               m1 = (if truthy p2
                     then on_p2 (\<lambda>s. s\<lparr>opponents := set_add (Opponent p1) (opponents s)\<rparr>)
                            (on_p1 (\<lambda>s. s\<lparr>opponents := set_add (Opponent (the p2)) (opponents s)\<rparr>)
                               statsMap)
                     else statsMap)
           in case result pairing of
                PLAYER1 \<Rightarrow>
                  on_p2 (\<lambda>s. s\<lparr>losses := losses s + 1\<rparr>)
                    (on_p1 (\<lambda>s. s\<lparr>wins := wins s + 1, basePoints := basePoints s + 1\<rparr>) m1)
              | PLAYER2 \<Rightarrow>
                  on_p1 (\<lambda>s. s\<lparr>losses := losses s + 1\<rparr>)
                    (on_p2 (\<lambda>s. s\<lparr>wins := wins s + 1, basePoints := basePoints s + 1\<rparr>) m1)
              | DRAW \<Rightarrow>
                  on_p2 (\<lambda>s. s\<lparr>draws := draws s + 1, basePoints := basePoints s + 1 / 2\<rparr>)
                    (on_p1 (\<lambda>s. s\<lparr>draws := draws s + 1, basePoints := basePoints s + 1 / 2\<rparr>) m1)
              | BYE \<Rightarrow>
                  on_p1 (\<lambda>s. s\<lparr>byes := byes s + 1, basePoints := basePoints s + 1,
                                opponents := set_add ByeMarker (opponents s)\<rparr>) m1
              | UNPLAYED \<Rightarrow> m1)"

definition stats_round :: "stats_map \<Rightarrow> round \<Rightarrow> stats_map" where
  "stats_round statsMap r = foldl stats_pairing statsMap (pairings r)"

text \<open>Decimal digits of a number, as a template literal prints an integer id.\<close>

fun show_nat :: "nat \<Rightarrow> string" where
  "show_nat n =
     (if n < 10 then [char_of (48 + n)] else show_nat (n div 10) @ [char_of (48 + n mod 10)])"

definition opponent_summary :: "player list \<Rightarrow> opponent \<Rightarrow> string" where
  "opponent_summary players opponent =
     (case opponent of
        ByeMarker \<Rightarrow> ''Bye''
      | Opponent i \<Rightarrow>
          (case map_of (map (\<lambda>player. (player_id player, player)) (rev players)) i of
             Some opponentData \<Rightarrow>
               name opponentData @ '' (#'' @ show_nat (player_id opponentData) @ '')''
           | None \<Rightarrow> ''#'' @ show_nat i))"

definition to_standing :: "player list \<Rightarrow> stats \<Rightarrow> standing" where
  "to_standing players s =
     (let gamesPlayed = wins s + losses s + draws s + byes s;
          totalPoints = basePoints s + stat_addScore s;
          winPercent = (if gamesPlayed = 0 then 0 else (basePoints s / of_nat gamesPlayed) * 100)
      in stats.extend s
           (standing.fields gamesPlayed totalPoints winPercent
              (map (opponent_summary players) (opponents s))))"

text \<open>
  The comparator handed to \<^verbatim>\<open>sort\<close>; a negative value puts \<open>a\<close> first.
  \<^verbatim>\<open>Array.prototype.sort\<close> is stable, so the result is the stable insertion sort.
\<close>

definition compare_standings :: "standing \<Rightarrow> standing \<Rightarrow> rat" where
  "compare_standings a b =
     (if totalPoints b \<noteq> totalPoints a then totalPoints b - totalPoints a
      else if basePoints b \<noteq> basePoints a then basePoints b - basePoints a
      else if winPercent b \<noteq> winPercent a then winPercent b - winPercent a
      else of_int (stat_seed a - stat_seed b))"

fun insert_standing :: "standing \<Rightarrow> standing list \<Rightarrow> standing list" where
  "insert_standing a [] = [a]"
| "insert_standing a (b # bs) =
     (if compare_standings a b \<le> 0 then a # b # bs else b # insert_standing a bs)"

definition sort_standings :: "standing list \<Rightarrow> standing list" where
  "sort_standings xs = foldr insert_standing xs []"

definition stats_of :: "player list \<Rightarrow> round list \<Rightarrow> stats_map" where
  "stats_of players rounds =
     foldl stats_round
       (foldl (\<lambda>m player. map_set (player_id player) (initial_stats player) m) [] players)
       rounds"

definition recalculateStandings :: "player list \<Rightarrow> round list \<Rightarrow> standing list" where
  "recalculateStandings players rounds =
     sort_standings (map (to_standing players) (map snd (stats_of players rounds)))"

section \<open>The server's store and handlers\<close>

text \<open>
  The SQLite tables, kept in the shape in which \<^verbatim>\<open>getPlayers\<close> and \<^verbatim>\<open>getRounds\<close>
  read them: the players in id order, the rounds in round-number order, each with its
  matches in table order. The two counters are the last row ids handed out by the
  \<^verbatim>\<open>AUTOINCREMENT\<close> keys of \<^verbatim>\<open>rounds\<close> and \<^verbatim>\<open>matches\<close>. The SQL statements
  themselves are not translated.
\<close>

record store =
  db_players :: "player list"
  db_rounds :: "round list"
  last_round_id :: nat
  last_match_id :: nat

definition getPlayers :: "store \<Rightarrow> player list" where
  "getPlayers db = db_players db"

definition getRounds :: "store \<Rightarrow> round list" where
  "getRounds db = db_rounds db"

datatype response =
    Created201 round
  | NoContent204
  | BadRequest400 string
  | NotFound404 string
  | ServerError500 string

text \<open>
  The callback of \<^verbatim>\<open>pairings.map((pair, index) => ...)\<close> in \<^verbatim>\<open>POST /api/rounds\<close>:
  the match row inserted for one element of the pairing list. A one-element list is a
  bye; otherwise the first two elements are the players. \<^verbatim>\<open>createSwissPairings\<close>
  returns lists of one or two players only, so both indices are in range.
\<close>

definition new_pairing :: "nat \<Rightarrow> nat list \<times> nat \<Rightarrow> pairing" where
  "new_pairing last_id entry =
     (case entry of (pair, index) \<Rightarrow>
        if length pair = 1
        then \<lparr> match_id = last_id + index + 1, table = index + 1,
               player1 = pair ! 0, player2 = None, result = BYE \<rparr>
        else \<lparr> match_id = last_id + index + 1, table = index + 1,
               player1 = pair ! 0, player2 = Some (pair ! 1), result = UNPLAYED \<rparr>)"

definition new_pairings :: "nat \<Rightarrow> nat list list \<Rightarrow> pairing list" where
  "new_pairings last_id prs = map (new_pairing last_id) (zip prs [0..<length prs])"

definition postRounds :: "store \<Rightarrow> response \<times> store" where
  "postRounds db =
     (let players = getPlayers db;
          rounds = getRounds db
      in if \<not> canGenerateNextRound rounds
         then (BadRequest400 ''All matches must be completed before generating the next round.'', db)
         else
           let standings = recalculateStandings players rounds;
               opponentHistory = gatherOpponentHistory players rounds;
               playersToPair = map stat_id standings
           in case createSwissPairings playersToPair opponentHistory of
                Inl (Error message) \<Rightarrow> (ServerError500 message, db)
              | Inr prs \<Rightarrow>
                  let nextRoundNumber = length rounds + 1;
                      roundId = last_round_id db + 1;
                      newRound = \<lparr> round_id = roundId, roundNumber = nextRoundNumber,
                                   pairings = new_pairings (last_match_id db) prs \<rparr>
                  in (Created201 newRound,
                      db\<lparr> db_rounds := rounds @ [newRound],
                          last_round_id := roundId,
                          last_match_id := last_match_id db + length prs \<rparr>))"

text \<open>
  \<^verbatim>\<open>PUT /api/matches/:id\<close>. The request's \<^verbatim>\<open>result\<close> is a string (any other JSON
  value behaves like a string that names no result).
\<close>

definition RESULT_values :: "result list" where
  "RESULT_values = [UNPLAYED, PLAYER1, PLAYER2, DRAW, BYE]"

definition matches :: "store \<Rightarrow> pairing list" where
  "matches db = concat (map pairings (db_rounds db))"

definition update_match :: "nat \<Rightarrow> result \<Rightarrow> store \<Rightarrow> store" where
  "update_match matchId r db =
     db\<lparr> db_rounds :=
           map (\<lambda>round. round\<lparr> pairings :=
                  map (\<lambda>m. if match_id m = matchId then m\<lparr> result := r \<rparr> else m)
                    (pairings round) \<rparr>)
             (db_rounds db) \<rparr>"

definition setMatchResult :: "store \<Rightarrow> nat \<Rightarrow> string \<Rightarrow> response \<times> store" where
  "setMatchResult db matchId res =
     (case find (\<lambda>r. result_value r = res) RESULT_values of
        None \<Rightarrow> (BadRequest400 ''Invalid result value'', db)
      | Some r \<Rightarrow>
          (case find (\<lambda>m. match_id m = matchId) (matches db) of
             None \<Rightarrow> (NotFound404 ''Match not found'', db)
           | Some m \<Rightarrow>
               if player2 m = None \<and> r \<noteq> BYE
               then (BadRequest400 ''Bye matches must remain BYE'', db)
               else (NoContent204, update_match matchId r db)))"

text \<open>
  \<^verbatim>\<open>PUT /api/players/:id/adjustment\<close>. The request's \<^verbatim>\<open>addScore\<close> is whatever
  \<^verbatim>\<open>express.json()\<close> parsed: any JSON value, or \<^verbatim>\<open>undefined\<close> when the key is
  absent. A JSON number is a finite double or, for a literal out of range, an infinity.
\<close>

datatype jsnum = Finite rat | NaN | PosInfinity | NegInfinity

datatype json =
    JUndefined
  | JNull
  | JBool bool
  | JNumber jsnum
  | JString string
  | JArray "json list"
  | JObject "(string \<times> json) list"

fun isFinite :: "jsnum \<Rightarrow> bool" where
  "isFinite (Finite x) = True"
| "isFinite NaN = False"
| "isFinite PosInfinity = False"
| "isFinite NegInfinity = False"

text \<open>
  \<^verbatim>\<open>Number.parseFloat(value)\<close> first converts its argument to a string, and that
  conversion throws a \<^verbatim>\<open>TypeError\<close> for some values. An object is converted through
  its \<^verbatim>\<open>toString\<close> and \<^verbatim>\<open>valueOf\<close> properties: a parsed JSON object that has an
  own member named \<^verbatim>\<open>toString\<close> shadows the inherited method with a value that is
  not callable, the inherited \<^verbatim>\<open>valueOf\<close> returns the object itself, and the
  conversion throws; without such a member the inherited \<^verbatim>\<open>toString\<close> gives
  \<^verbatim>\<open>"[object Object]"\<close>. An array is joined from the strings of its elements
  (\<^verbatim>\<open>null\<close> counts as empty), so it throws when one of its elements does. Nothing
  else throws.
\<close>

fun to_string_throws :: "json \<Rightarrow> bool" where
  "to_string_throws (JObject members) = (''toString'' \<in> set (map fst members))"
| "to_string_throws (JArray elements) = (\<exists>e\<in>set elements. to_string_throws e)"
| "to_string_throws JUndefined = False"
| "to_string_throws JNull = False"
| "to_string_throws (JBool b) = False"
| "to_string_throws (JNumber n) = False"
| "to_string_throws (JString s) = False"

text \<open>
  Reading a number off the string (the decimal prefix, rounded to a double, or
  \<^verbatim>\<open>NaN\<close>, or an infinity) belongs to the JavaScript runtime and is the parameter
  \<open>parse_string\<close>, applied to the value whose string it reads. The message is the one
  the runtime of Node.js gives.
\<close>

definition parseFloat :: "(json \<Rightarrow> jsnum) \<Rightarrow> json \<Rightarrow> error + jsnum" where
  "parseFloat parse_string v =
     (if to_string_throws v then Inl (Error ''Cannot convert object to primitive value'')
      else Inr (parse_string v))"

text \<open>
  The handler has no \<^verbatim>\<open>try\<close>: an exception thrown in it reaches the error handler of
  Express, which answers with status 500; the \<^verbatim>\<open>UPDATE\<close> has not run by then.
\<close>

definition setAdjustment ::
  "(json \<Rightarrow> jsnum) \<Rightarrow> store \<Rightarrow> nat \<Rightarrow> json \<Rightarrow> response \<times> store" where
  "setAdjustment parse_string db playerId addScore_in =
     (case parseFloat parse_string addScore_in of
        Inl (Error message) \<Rightarrow> (ServerError500 message, db)
      | Inr numericValue \<Rightarrow>
          let v = (if isFinite numericValue
                   then (case numericValue of Finite x \<Rightarrow> x | _ \<Rightarrow> 0) else 0);
              changes = length (filter (\<lambda>p. player_id p = playerId) (db_players db));
              db' = db\<lparr> db_players :=
                         map (\<lambda>p. if player_id p = playerId then p\<lparr> addScore := v \<rparr> else p)
                           (db_players db) \<rparr>
          in if changes = 0 then (NotFound404 ''Player not found'', db')
             else (NoContent204, db'))"

section \<open>Predicates used in the statements\<close>

text \<open>
  \<open>played rounds a b\<close>: some pairing of the history seats \<open>a\<close> against a real
  opponent \<open>b\<close>, on either side of the table.
\<close>

definition played :: "round list \<Rightarrow> nat \<Rightarrow> nat \<Rightarrow> bool" where
  "played rounds a b =
     (\<exists>r\<in>set rounds. \<exists>p\<in>set (pairings r).
        (player1 p = a \<and> player2 p = Some b) \<or> (player1 p = b \<and> player2 p = Some a))"

text \<open>Every player id stored in a pairing is a positive row id.\<close>

definition positive_ids :: "round list \<Rightarrow> bool" where
  "positive_ids rounds =
     (\<forall>r\<in>set rounds. \<forall>p\<in>set (pairings r). player1 p \<noteq> 0 \<and> player2 p \<noteq> Some 0)"

text \<open>At least one pairing of the history has result \<open>UNPLAYED\<close>.\<close>

definition has_unplayed :: "round list \<Rightarrow> bool" where
  "has_unplayed rounds = (\<exists>r\<in>set rounds. \<exists>p\<in>set (pairings r). result p = UNPLAYED)"

text \<open>
  \<open>rematch_free h out\<close>: no pair (two-element list) of \<open>out\<close> holds two players
  of whom one is in the other's history set.
\<close>

definition rematch_free :: "history \<Rightarrow> nat list list \<Rightarrow> bool" where
  "rematch_free h out =
     list_all (\<lambda>pr. \<not> met h (pr ! 0) (pr ! 1) \<and> \<not> met h (pr ! 1) (pr ! 0))
       (filter (\<lambda>pr. length pr = 2) out)"

text \<open>The one-element lists of a pairing list: the byes.\<close>

definition singletons :: "nat list list \<Rightarrow> nat list list" where
  "singletons out = filter (\<lambda>pr. length pr = 1) out"

text \<open>
  \<open>forced h ps\<close>: wherever a pair of \<open>ps\<close> is a rematch, its first player had
  already met every player of the pairs after it.
\<close>

fun forced :: "history \<Rightarrow> nat list list \<Rightarrow> bool" where
  "forced h [] = True"
| "forced h (pr # ps) =
     ((met h (pr ! 0) (pr ! 1) \<longrightarrow> (\<forall>x\<in>set (concat ps). met h (pr ! 0) x)) \<and> forced h ps)"

text \<open>The pairing invariant of the data model, for one match and for the store.\<close>

definition pairing_invariant :: "pairing \<Rightarrow> bool" where
  "pairing_invariant m = (player2 m = None \<longleftrightarrow> result m = BYE)"

definition store_invariant :: "store \<Rightarrow> bool" where
  "store_invariant db = list_all pairing_invariant (matches db)"

definition bye_stays_bye :: "store \<Rightarrow> bool" where
  "bye_stays_bye db = list_all (\<lambda>m. player2 m = None \<longrightarrow> result m = BYE) (matches db)"

text \<open>
  \<open>faced p a b\<close>: the pairing \<open>p\<close> seats \<open>a\<close> against \<open>b\<close> and passes the guard
  of \<^verbatim>\<open>gatherOpponentHistory\<close> (both ids truthy).
\<close>

definition faced :: "pairing \<Rightarrow> nat \<Rightarrow> nat \<Rightarrow> bool" where
  "faced p a b =
     (a \<noteq> 0 \<and> b \<noteq> 0 \<and>
      ((player1 p = a \<and> player2 p = Some b) \<or> (player1 p = b \<and> player2 p = Some a)))"

text \<open>The rounds with every bye pairing (\<open>player2 = None\<close>) removed.\<close>

definition without_byes :: "round list \<Rightarrow> round list" where
  "without_byes rounds =
     map (\<lambda>r. r\<lparr> pairings := filter (\<lambda>p. player2 p \<noteq> None) (pairings r) \<rparr>) rounds"

section \<open>An example tournament\<close>

text \<open>
  Four players A, B, C, D with seeds 1 to 4; round 1 pairs A with B (A won) and C with D
  (drawn). A fifth player E for the odd pool.
\<close>

definition example_player :: "nat \<Rightarrow> string \<Rightarrow> int \<Rightarrow> player" where
  "example_player i n s =
     \<lparr> player_id = i, name = n, fullName = None, contact = None, department = None,
       registerNumber = None, seed = s, addScore = 0 \<rparr>"

definition example_players :: "player list" where
  "example_players =
     [example_player 1 ''A'' 1, example_player 2 ''B'' 2,
      example_player 3 ''C'' 3, example_player 4 ''D'' 4]"

definition example_rounds :: "round list" where
  "example_rounds =
     [\<lparr> round_id = 1, roundNumber = 1,
        pairings =
          [\<lparr> match_id = 1, table = 1, player1 = 1, player2 = Some 2, result = PLAYER1 \<rparr>,
           \<lparr> match_id = 2, table = 2, player1 = 3, player2 = Some 4, result = DRAW \<rparr>] \<rparr>]"

definition example_store :: store where
  "example_store =
     \<lparr> db_players = example_players, db_rounds = example_rounds,
       last_round_id = 1, last_match_id = 2 \<rparr>"

definition empty_store :: store where
  "empty_store = \<lparr> db_players = [], db_rounds = [], last_round_id = 0, last_match_id = 0 \<rparr>"

text \<open>
  A stand-in for the runtime's reading of a number: the string \<^verbatim>\<open>"2.5"\<close> is 2.5,
  the string \<^verbatim>\<open>"Infinity"\<close> is infinite, a JSON number is itself, and anything else
  is not a number.
\<close>

definition example_parse :: "json \<Rightarrow> jsnum" where
  "example_parse v =
     (case v of
        JString s \<Rightarrow>
          if s = ''2.5'' then Finite (5 / 2) else if s = ''Infinity'' then PosInfinity else NaN
      | JNumber n \<Rightarrow> n
      | _ \<Rightarrow> NaN)"

text \<open>The adjustment that \<^verbatim>\<open>setAdjustment\<close> stores for a parsed number.\<close>

definition stored_adjustment :: "jsnum \<Rightarrow> rat" where
  "stored_adjustment n = (case n of Finite x \<Rightarrow> x | _ \<Rightarrow> 0)"

definition with_adjustment :: "store \<Rightarrow> nat \<Rightarrow> rat \<Rightarrow> store" where
  "with_adjustment db playerId v =
     db\<lparr> db_players :=
           map (\<lambda>p. if player_id p = playerId then p\<lparr> addScore := v \<rparr> else p) (db_players db) \<rparr>"

text \<open>Five players, round 1 with a bye for the fifth.\<close>

definition example_bye_store :: store where
  "example_bye_store =
     \<lparr> db_players = example_players @ [example_player 5 ''E'' 5],
       db_rounds =
         [\<lparr> round_id = 1, roundNumber = 1,
            pairings =
              [\<lparr> match_id = 1, table = 1, player1 = 1, player2 = Some 2, result = PLAYER1 \<rparr>,
               \<lparr> match_id = 2, table = 2, player1 = 3, player2 = Some 4, result = DRAW \<rparr>,
               \<lparr> match_id = 3, table = 3, player1 = 5, player2 = None, result = BYE \<rparr>] \<rparr>],
       last_round_id = 1, last_match_id = 3 \<rparr>"

text \<open>
  Two player lists differ in the manual adjustments only when they agree once every
  \<open>addScore\<close> is set to 0. \<open>efficiency\<close> is the part of a standing that the win
  percentage is computed from and stored in.
\<close>

definition zero_adjustments :: "player list \<Rightarrow> player list" where
  "zero_adjustments players = map (\<lambda>p. p\<lparr> addScore := 0 \<rparr>) players"

definition efficiency :: "standing \<Rightarrow> nat \<times> nat \<times> rat \<times> rat" where
  "efficiency s = (stat_id s, gamesPlayed s, basePoints s, winPercent s)"

definition erase_adjustment :: "stats_map \<Rightarrow> stats_map" where
  "erase_adjustment m = map (\<lambda>(k, s). (k, s\<lparr> stat_addScore := 0 \<rparr>)) m"

text \<open>The example players with a manual adjustment of 3 points for B.\<close>

definition example_adjusted_players :: "player list" where
  "example_adjusted_players =
     [example_player 1 ''A'' 1, (example_player 2 ''B'' 2)\<lparr> addScore := 3 \<rparr>,
      example_player 3 ''C'' 3, example_player 4 ''D'' 4]"

text \<open>
  The four example players after a complete round robin, every game drawn; and two
  stores with two players each: in the first they have played each other, in the second
  the first player had a bye and the second has not played.
\<close>

definition example_drawn :: "nat \<Rightarrow> nat \<Rightarrow> nat \<Rightarrow> nat \<Rightarrow> pairing" where
  "example_drawn i t a b =
     \<lparr> match_id = i, table = t, player1 = a, player2 = Some b, result = DRAW \<rparr>"

definition round_robin_store :: store where
  "round_robin_store =
     \<lparr> db_players = example_players,
       db_rounds =
         [\<lparr> round_id = 1, roundNumber = 1,
            pairings = [example_drawn 1 1 1 2, example_drawn 2 2 3 4] \<rparr>,
          \<lparr> round_id = 2, roundNumber = 2,
            pairings = [example_drawn 3 1 1 3, example_drawn 4 2 2 4] \<rparr>,
          \<lparr> round_id = 3, roundNumber = 3,
            pairings = [example_drawn 5 1 1 4, example_drawn 6 2 2 3] \<rparr>],
       last_round_id = 3, last_match_id = 6 \<rparr>"

definition two_player_rematch_store :: store where
  "two_player_rematch_store =
     \<lparr> db_players = [example_player 1 ''A'' 1, example_player 2 ''B'' 2],
       db_rounds =
         [\<lparr> round_id = 1, roundNumber = 1,
            pairings =
              [\<lparr> match_id = 1, table = 1, player1 = 1, player2 = Some 2, result = PLAYER1 \<rparr>] \<rparr>],
       last_round_id = 1, last_match_id = 1 \<rparr>"

definition two_player_fresh_store :: store where
  "two_player_fresh_store =
     \<lparr> db_players = [example_player 1 ''A'' 1, example_player 2 ''B'' 2],
       db_rounds =
         [\<lparr> round_id = 1, roundNumber = 1,
            pairings =
              [\<lparr> match_id = 1, table = 1, player1 = 1, player2 = None, result = BYE \<rparr>] \<rparr>],
       last_round_id = 1, last_match_id = 1 \<rparr>"

text \<open>The rounds that \<^verbatim>\<open>POST /api/rounds\<close> answers with on these stores.\<close>

definition round_robin_next :: round where
  "round_robin_next =
     \<lparr> round_id = 4, roundNumber = 4,
       pairings =
         [\<lparr> match_id = 7, table = 1, player1 = 1, player2 = Some 2, result = UNPLAYED \<rparr>,
          \<lparr> match_id = 8, table = 2, player1 = 3, player2 = Some 4, result = UNPLAYED \<rparr>] \<rparr>"

definition two_player_next :: round where
  "two_player_next =
     \<lparr> round_id = 2, roundNumber = 2,
       pairings =
         [\<lparr> match_id = 2, table = 1, player1 = 1, player2 = Some 2, result = UNPLAYED \<rparr>] \<rparr>"

section \<open>The search with the choosing loop recorded\<close>

text \<open>
  \<^verbatim>\<open>backtrack\<close> once more, word for word, except that every pair carries a mark
  saying which of the two loops appended it: \<open>False\<close> for the first loop, which skips
  the opponents of the history, \<open>True\<close> for the second, which ignores the history.
  The bye is appended with mark \<open>False\<close>. Dropping the marks gives back
  \<^verbatim>\<open>backtrack\<close> and \<^verbatim>\<open>createSwissPairings\<close>; the source keeps no such mark.
\<close>

function backtrack_traced ::
  "history \<Rightarrow> nat list \<Rightarrow> (nat list \<times> bool) list \<Rightarrow> (nat list \<times> bool) list option" where
  "backtrack_traced h [] currentPairs = Some currentPairs"
| "backtrack_traced h (player # rest) currentPairs =
     (case first_some
             (\<lambda>i. if met h player (rest ! i) then None
                  else backtrack_traced h (remaining rest i)
                         (currentPairs @ [([player, rest ! i], False)]))
             [0..<length rest] of
        Some s \<Rightarrow> Some s
      | None \<Rightarrow>
          first_some
            (\<lambda>i. backtrack_traced h (remaining rest i)
                   (currentPairs @ [([player, rest ! i], True)]))
            [0..<length rest])"
  by pat_completeness auto
termination
  by (relation "measure (\<lambda>(h, available, currentPairs). length available)")
     (auto simp: remaining_def)

definition createSwissPairings_traced ::
  "nat list \<Rightarrow> history \<Rightarrow> error + (nat list \<times> bool) list" where
  "createSwissPairings_traced playerIds opponentHistory =
     (let (pool, byePlayer) =
            (if length playerIds mod 2 = 1 then (butlast playerIds, Some (last playerIds))
             else (playerIds, None))
      in case backtrack_traced opponentHistory pool [] of
           None \<Rightarrow> Inl (Error ''Unable to create Swiss pairings without conflicts.'')
         | Some solution \<Rightarrow>
             Inr (case byePlayer of None \<Rightarrow> solution | Some b \<Rightarrow> solution @ [([b], False)]))"

text \<open>
  Two players with the ids 0 and 1 who have played each other in round 1, and the round
  that \<^verbatim>\<open>POST /api/rounds\<close> answers with on this store.
\<close>

definition zero_id_store :: store where
  "zero_id_store =
     \<lparr> db_players = [example_player 0 ''Z'' 1, example_player 1 ''A'' 2],
       db_rounds =
         [\<lparr> round_id = 1, roundNumber = 1,
            pairings =
              [\<lparr> match_id = 1, table = 1, player1 = 0, player2 = Some 1, result = PLAYER1 \<rparr>] \<rparr>],
       last_round_id = 1, last_match_id = 1 \<rparr>"

definition zero_id_next :: round where
  "zero_id_next =
     \<lparr> round_id = 2, roundNumber = 2,
       pairings =
         [\<lparr> match_id = 2, table = 1, player1 = 0, player2 = Some 1, result = UNPLAYED \<rparr>] \<rparr>"

section \<open>The search of createSwissPairings\<close>

lemma first_some_None_iff: "first_some f xs = None \<longleftrightarrow> (\<forall>x\<in>set xs. f x = None)"
  by (induction xs) (auto split: option.splits)

lemma first_some_picks:
  "first_some f xs = None \<or> (\<exists>x\<in>set xs. f x \<noteq> None \<and> first_some f xs = f x)"
  by (induction xs) (auto split: option.splits)

lemma mset_remaining:
  assumes "i < length rest"
  shows "add_mset (rest ! i) (mset (remaining rest i)) = mset rest"
proof -
  have "rest = take i rest @ rest ! i # drop (Suc i) rest"
    using assms by (rule id_take_nth_drop)
  then have "mset rest = mset (take i rest @ rest ! i # drop (Suc i) rest)"
    by simp
  then show ?thesis
    by (simp add: remaining_def)
qed

lemma length_remaining: "i < length rest \<Longrightarrow> length (remaining rest i) = length rest - 1"
  by (auto simp: remaining_def)

lemma backtrack_greedy:
  "even (length available) \<Longrightarrow>
   \<exists>ps. backtrack h available cur = Some (cur @ ps) \<and> (\<forall>p\<in>set ps. length p = 2) \<and>
        mset (concat ps) = mset available \<and> forced h ps"
proof (induction "length available" arbitrary: available cur rule: less_induct)
  case less
  show ?case
  proof (cases available)
    case Nil
    then show ?thesis by simp
  next
    case (Cons player rest)
    define n where "n = length rest"
    define F1 where "F1 = (\<lambda>i. if met h player (rest ! i) then None
                  else backtrack h (remaining rest i) (cur @ [[player, rest ! i]]))"
    define F2 where "F2 = (\<lambda>i. backtrack h (remaining rest i) (cur @ [[player, rest ! i]]))"
    have bt: "backtrack h available cur =
        (case first_some F1 [0..<n] of Some s \<Rightarrow> Some s | None \<Rightarrow> first_some F2 [0..<n])"
      unfolding Cons F1_def F2_def n_def by simp
    have odd_n: "odd n" using less.prems Cons by (simp add: n_def)
    then have n_pos: "0 < n" by (cases n) auto
    have rec: "\<exists>ps. F2 i = Some (cur @ [player, rest ! i] # ps) \<and> (\<forall>p\<in>set ps. length p = 2) \<and>
        mset (concat ps) = mset (remaining rest i) \<and> forced h ps" if "i < n" for i
    proof -
      have len: "length (remaining rest i) = n - 1"
        using that by (simp add: length_remaining n_def)
      have "length (remaining rest i) < length available"
        using len Cons by (simp add: n_def)
      moreover have "even (length (remaining rest i))"
        using len odd_n by simp
      ultimately show ?thesis
        using less.hyps [of "remaining rest i" "cur @ [[player, rest ! i]]"]
        by (simp add: F2_def)
    qed
    have step: "\<exists>ps. cur @ [player, rest ! i] # ps' = cur @ ps \<and> (\<forall>p\<in>set ps. length p = 2) \<and>
        mset (concat ps) = mset available \<and> forced h ps"
      if "i < n" "\<forall>p\<in>set ps'. length p = 2" "mset (concat ps') = mset (remaining rest i)"
         "forced h ps'" "met h player (rest ! i) \<longrightarrow> (\<forall>x\<in>set rest. met h player x)" for i ps'
    proof -
      have sub: "set (concat ps') \<subseteq> set rest"
      proof -
        have "set (concat ps') = set (remaining rest i)"
          using that(3) by (metis set_mset_mset)
        then show ?thesis by (auto simp: remaining_def dest: in_set_takeD in_set_dropD)
      qed
      have "mset (concat ([player, rest ! i] # ps')) = mset available"
        using that(1,3) mset_remaining [of i rest] by (simp add: Cons n_def)
      moreover have "forced h ([player, rest ! i] # ps')"
        using that(4,5) sub by auto
      moreover have "\<forall>p\<in>set ([player, rest ! i] # ps'). length p = 2"
        using that(2) by simp
      ultimately show ?thesis by blast
    qed
    show ?thesis
    proof (cases "\<exists>i<n. \<not> met h player (rest ! i)")
      case True
      then obtain i0 where i0: "i0 < n" "\<not> met h player (rest ! i0)" by blast
      have "F1 i0 \<noteq> None"
        using rec [OF i0(1)] i0(2) by (auto simp: F1_def F2_def)
      then have "first_some F1 [0..<n] \<noteq> None"
        using i0(1) by (auto simp: first_some_None_iff)
      then obtain i where i: "i < n" "F1 i \<noteq> None" "first_some F1 [0..<n] = F1 i"
        using first_some_picks [of F1 "[0..<n]"] by auto
      have nm: "\<not> met h player (rest ! i)" and eq: "F1 i = F2 i"
        using i(2) by (auto simp: F1_def F2_def split: if_splits)
      obtain ps' where ps': "F2 i = Some (cur @ [player, rest ! i] # ps')"
        "\<forall>p\<in>set ps'. length p = 2" "mset (concat ps') = mset (remaining rest i)" "forced h ps'"
        using rec [OF i(1)] by blast
      have "backtrack h available cur = Some (cur @ [player, rest ! i] # ps')"
        using bt i(3) eq ps'(1) by simp
      then show ?thesis
        using step [OF i(1) ps'(2,3,4)] nm by auto
    next
      case False
      then have all_met: "\<forall>x\<in>set rest. met h player x"
        by (auto simp: in_set_conv_nth n_def)
      have "first_some F1 [0..<n] = None"
        using False by (auto simp: first_some_None_iff F1_def)
      moreover have "F2 0 \<noteq> None" using rec [OF n_pos] by auto
      then have "first_some F2 [0..<n] \<noteq> None"
        using n_pos by (auto simp: first_some_None_iff)
      then obtain i where i: "i < n" "first_some F2 [0..<n] = F2 i"
        using first_some_picks [of F2 "[0..<n]"] by auto
      obtain ps' where ps': "F2 i = Some (cur @ [player, rest ! i] # ps')"
        "\<forall>p\<in>set ps'. length p = 2" "mset (concat ps') = mset (remaining rest i)" "forced h ps'"
        using rec [OF i(1)] by blast
      ultimately have "backtrack h available cur = Some (cur @ [player, rest ! i] # ps')"
        using bt i(2) by simp
      then show ?thesis
        using step [OF i(1) ps'(2,3,4)] all_met by auto
    qed
  qed
qed

lemma createSwissPairings_result:
  "\<exists>ps. (\<forall>p\<in>set ps. length p = 2) \<and>
        mset (concat ps) = mset (if odd (length ids) then butlast ids else ids) \<and>
        forced h ps \<and>
        createSwissPairings ids h = Inr (if odd (length ids) then ps @ [[last ids]] else ps)"
proof (cases "odd (length ids)")
  case True
  then have ev: "even (length (butlast ids))" by simp
  have m: "length ids mod 2 = 1" using True by (simp add: odd_iff_mod_2_eq_one)
  show ?thesis
    using backtrack_greedy [OF ev, of h "[]"] True m
    by (auto simp: createSwissPairings_def)
next
  case False
  then have m: "length ids mod 2 \<noteq> 1" by (simp add: odd_iff_mod_2_eq_one)
  show ?thesis
    using backtrack_greedy [of ids h "[]"] False m
    by (auto simp: createSwissPairings_def)
qed

text \<open>
  C4. \<^verbatim>\<open>createSwissPairings\<close> returns a pairing list for every list of player ids and
  every opponent history: the search always completes a matching of the even pool, and
  the branch that throws "Unable to create Swiss pairings without conflicts." is never
  taken.
\<close>

theorem createSwissPairings_never_throws:
  "(\<exists>out. createSwissPairings playerIds opponentHistory = Inr out) \<and>
   createSwissPairings playerIds opponentHistory
     \<noteq> Inl (Error ''Unable to create Swiss pairings without conflicts.'')"
proof -
  obtain ps where
    "createSwissPairings playerIds opponentHistory =
       Inr (if odd (length playerIds) then ps @ [[last playerIds]] else ps)"
    using createSwissPairings_result [of playerIds opponentHistory] by blast
  then show ?thesis by simp
qed
text \<open>
  C1. The claim: whenever some complete matching of the pool avoids every rematch, the
  returned pairing contains no rematch, because the history-ignoring pass runs only after
  the strict pass has failed for the whole pool. The code at the input
  \<^verbatim>\<open>[1, 2, 3, 4]\<close> with 3 and 4 in each other's history: it returns
  \<^verbatim>\<open>[[1, 2], [3, 4]]\<close>, a rematch, although \<^verbatim>\<open>[[1, 3], [2, 4]]\<close> is a complete
  matching without one. The second loop sits inside \<^verbatim>\<open>backtrack\<close>, so the call for
  \<^verbatim>\<open>[3, 4]\<close> succeeds through it and the first loop of the outer call never moves on
  from opponent 2.
\<close>

theorem createSwissPairings_local_fallback:
  "createSwissPairings [1, 2, 3, 4] [3 \<mapsto> {4}, 4 \<mapsto> {3}] = Inr [[1, 2], [3, 4]] \<and>
   \<not> rematch_free [3 \<mapsto> {4}, 4 \<mapsto> {3}] [[1, 2], [3, 4]] \<and>
   rematch_free [3 \<mapsto> {4}, 4 \<mapsto> {3}] [[1, 3], [2, 4]] \<and>
   mset (concat [[1, 3], [2, 4]]) = mset [1, 2, 3, 4 :: nat]"
  by (simp add: createSwissPairings_def rematch_free_def met_def remaining_def upt_rec)

lemma new_pairings_tables: "map table (new_pairings k out) = [1..<Suc (length out)]"
proof -
  have t: "table (new_pairing k e) = Suc (snd e)" for e
    by (cases e) (simp add: new_pairing_def)
  have "map table (new_pairings k out) = map (Suc \<circ> snd) (zip out [0..<length out])"
    by (simp add: new_pairings_def t comp_def)
  also have "\<dots> = map Suc (map snd (zip out [0..<length out]))"
    by (simp only: map_map)
  also have "map snd (zip out [0..<length out]) = [0..<length out]"
    by (rule map_snd_zip) simp
  also have "map Suc [0..<length out] = [1..<Suc (length out)]"
    by (simp add: map_Suc_upt)
  finally show ?thesis .
qed

lemma new_pairings_last:
  "last (new_pairings k (ps @ [[b]])) =
     \<lparr> match_id = k + length ps + 1, table = length ps + 1, player1 = b, player2 = None,
       result = BYE \<rparr>"
  by (simp add: new_pairings_def new_pairing_def)

lemma singletons_pairs: "\<forall>p\<in>set ps. length p = 2 \<Longrightarrow> singletons ps = []"
  by (induction ps) (auto simp: singletons_def)

text \<open>
  C5. For a pool of odd size the output holds exactly one one-element list, it is the
  last element of the output and holds the last player of the rank-ordered input; the
  match rows built from the output carry the table numbers 1..N in output order, so the
  bye row has table N. For a pool of even size the output holds no one-element list.
\<close>

theorem createSwissPairings_bye_last:
  "\<exists>out. createSwissPairings ids h = Inr out \<and>
         map table (new_pairings k out) = [1..<Suc (length out)] \<and>
         (if odd (length ids)
          then singletons out = [[last ids]] \<and> last out = [last ids] \<and>
               table (last (new_pairings k out)) = length out \<and>
               player1 (last (new_pairings k out)) = last ids \<and>
               player2 (last (new_pairings k out)) = None \<and>
               result (last (new_pairings k out)) = BYE
          else singletons out = [])"
proof -
  obtain ps where ps: "\<forall>p\<in>set ps. length p = 2"
    "createSwissPairings ids h = Inr (if odd (length ids) then ps @ [[last ids]] else ps)"
    using createSwissPairings_result [of ids h] by blast
  have none: "singletons ps = []"
    using ps(1) by (rule singletons_pairs)
  show ?thesis
  proof (cases "odd (length ids)")
    case True
    have "singletons (ps @ [[last ids]]) = [[last ids]]"
      using none by (simp add: singletons_def)
    then show ?thesis
      using True ps(2) new_pairings_tables [of k "ps @ [[last ids]]"]
        new_pairings_last [of k ps "last ids"]
      by simp
  next
    case False
    then show ?thesis
      using ps(2) none new_pairings_tables [of k ps] by simp
  qed
qed

theorem createSwissPairings_bye_last_witness:
  "createSwissPairings [4, 7, 9] Map.empty = Inr [[4, 7], [9]] \<and>
   map table (new_pairings 10 [[4, 7], [9]]) = [1, 2] \<and>
   singletons [[4, 7], [9]] = [[9]] \<and>
   table (last (new_pairings 10 [[4, 7], [9]])) = 2 \<and>
   player1 (last (new_pairings 10 [[4, 7], [9]])) = 9 \<and>
   player2 (last (new_pairings 10 [[4, 7], [9]])) = None"
proof -
  have ev: "createSwissPairings [4, 7, 9] Map.empty = Inr [[4, 7], [9]]"
    by (simp add: createSwissPairings_def met_def remaining_def upt_rec)
  show ?thesis
    using createSwissPairings_bye_last [of "[4, 7, 9]" Map.empty 10] ev
    by (auto simp: upt_rec)
qed

text \<open>
  C6. For a list of distinct player ids the output is a partition of the input: the
  concatenation of the returned lists has the same elements as the input, each exactly
  once, and every returned list holds one or two players.
\<close>

theorem createSwissPairings_partition:
  assumes "distinct ids"
  shows "\<exists>out. createSwissPairings ids h = Inr out \<and>
           mset (concat out) = mset ids \<and> distinct (concat out) \<and>
           set (concat out) = set ids \<and>
           list_all (\<lambda>pr. length pr = 1 \<or> length pr = 2) out"
proof -
  obtain ps where ps: "\<forall>p\<in>set ps. length p = 2"
    "mset (concat ps) = mset (if odd (length ids) then butlast ids else ids)"
    "createSwissPairings ids h = Inr (if odd (length ids) then ps @ [[last ids]] else ps)"
    using createSwissPairings_result [of ids h] by blast
  define out where "out = (if odd (length ids) then ps @ [[last ids]] else ps)"
  have m: "mset (concat out) = mset ids"
  proof (cases "odd (length ids)")
    case True
    then have "ids \<noteq> []" by auto
    then have "butlast ids @ [last ids] = ids" by simp
    then have "mset ids = mset (butlast ids) + {#last ids#}"
      by (metis mset.simps(1) mset.simps(2) mset_append)
    then show ?thesis using True ps(2) by (simp add: out_def)
  next
    case False
    then show ?thesis using ps(2) by (simp add: out_def)
  qed
  have d: "distinct (concat out)"
    using m assms by (metis mset_eq_imp_distinct_iff)
  have s: "set (concat out) = set ids"
    using m by (metis set_mset_mset)
  have l: "list_all (\<lambda>pr. length pr = 1 \<or> length pr = 2) out"
    using ps(1) by (auto simp: out_def list_all_iff)
  show ?thesis
    using ps(3) m d s l unfolding out_def by blast
qed

theorem createSwissPairings_partition_witness:
  "distinct [5, 3, 8 :: nat] \<and>
   (\<exists>out. createSwissPairings [5, 3, 8] Map.empty = Inr out \<and>
      mset (concat out) = mset [5, 3, 8] \<and> distinct (concat out))"
  using createSwissPairings_partition [of "[5, 3, 8]" Map.empty]
  by auto
section \<open>gatherOpponentHistory\<close>

lemma history_add_apply:
  "history_add h a b x =
     (case h x of None \<Rightarrow> None | Some s \<Rightarrow> Some (if x = a then insert b s else s))"
  by (auto simp: history_add_def split: option.splits)

lemma history_pairing_apply:
  "history_pairing h p a =
     (case h a of None \<Rightarrow> None | Some s \<Rightarrow> Some (s \<union> {b. faced p a b}))"
proof (cases "player1 p = 0 \<or> \<not> truthy (player2 p)")
  case True
  then have "history_pairing h p = h"
    by (auto simp: history_pairing_def truthy_def)
  moreover have "{b. faced p a b} = {}"
    using True by (auto simp: faced_def truthy_def split: option.splits)
  ultimately show ?thesis by (simp split: option.splits)
next
  case False
  then obtain y where y: "player2 p = Some y" "y \<noteq> 0" "player1 p \<noteq> 0"
    by (auto simp: truthy_def split: option.splits)
  have eq: "history_pairing h p = history_add (history_add h (player1 p) y) y (player1 p)"
    using y by (simp add: history_pairing_def truthy_def)
  show ?thesis
  proof (cases "h a")
    case None
    then show ?thesis by (simp add: eq history_add_apply)
  next
    case (Some s)
    have "{b. faced p a b} = (if a = player1 p then {y} else {}) \<union> (if a = y then {player1 p} else {})"
      using y by (auto simp: faced_def)
    then show ?thesis
      using Some by (auto simp: eq history_add_apply)
  qed
qed

lemma history_round_apply:
  "foldl history_pairing h ps a =
     (case h a of None \<Rightarrow> None | Some s \<Rightarrow> Some (s \<union> {b. \<exists>p\<in>set ps. faced p a b}))"
proof (induction ps arbitrary: h)
  case Nil
  then show ?case by (simp split: option.splits)
next
  case (Cons p ps)
  have "foldl history_pairing h (p # ps) a = foldl history_pairing (history_pairing h p) ps a"
    by simp
  also have "\<dots> = (case history_pairing h p a of None \<Rightarrow> None
                    | Some s \<Rightarrow> Some (s \<union> {b. \<exists>p\<in>set ps. faced p a b}))"
    by (rule Cons)
  also have "\<dots> = (case h a of None \<Rightarrow> None
                    | Some s \<Rightarrow> Some (s \<union> {b. \<exists>p\<in>set (p # ps). faced p a b}))"
    by (cases "h a") (auto simp: history_pairing_apply)
  finally show ?case .
qed

lemma history_rounds_apply:
  "foldl history_round h rounds a =
     (case h a of None \<Rightarrow> None
      | Some s \<Rightarrow> Some (s \<union> {b. \<exists>r\<in>set rounds. \<exists>p\<in>set (pairings r). faced p a b}))"
proof (induction rounds arbitrary: h)
  case Nil
  then show ?case by (simp split: option.splits)
next
  case (Cons r rounds)
  have "foldl history_round h (r # rounds) a = foldl history_round (history_round h r) rounds a"
    by simp
  also have "\<dots> = (case history_round h r a of None \<Rightarrow> None
      | Some s \<Rightarrow> Some (s \<union> {b. \<exists>r\<in>set rounds. \<exists>p\<in>set (pairings r). faced p a b}))"
    by (rule Cons)
  also have "history_round h r a = (case h a of None \<Rightarrow> None
      | Some s \<Rightarrow> Some (s \<union> {b. \<exists>p\<in>set (pairings r). faced p a b}))"
    unfolding history_round_def by (rule history_round_apply)
  finally show ?case
    by (cases "h a") auto
qed

lemma initial_history:
  "map_of (map (\<lambda>player. (player_id player, {})) players) a =
     (if a \<in> player_id ` set players then Some {} else None)"
  by (induction players) auto

lemma gatherOpponentHistory_apply:
  "gatherOpponentHistory players rounds a =
     (if a \<in> player_id ` set players
      then Some {b. \<exists>r\<in>set rounds. \<exists>p\<in>set (pairings r). faced p a b} else None)"
  by (simp add: gatherOpponentHistory_def history_rounds_apply initial_history)

lemma faced_positive:
  "positive_ids rounds \<Longrightarrow>
   (\<exists>r\<in>set rounds. \<exists>p\<in>set (pairings r). faced p a b) = played rounds a b"
  unfolding positive_ids_def played_def faced_def by (intro iffI; fastforce)

lemma met_gather:
  "met (gatherOpponentHistory players rounds) a b \<longleftrightarrow>
     a \<in> player_id ` set players \<and> (\<exists>r\<in>set rounds. \<exists>p\<in>set (pairings r). faced p a b)"
  by (simp add: met_def gatherOpponentHistory_apply)

lemma faced_sym: "faced p a b = faced p b a"
  by (auto simp: faced_def)

lemma faced_without_byes:
  "(\<exists>r\<in>set (without_byes rounds). \<exists>p\<in>set (pairings r). faced p a b) =
   (\<exists>r\<in>set rounds. \<exists>p\<in>set (pairings r). faced p a b)"
  by (auto simp: without_byes_def faced_def)

text \<open>
  C7, as the code has it. When every player id stored in a pairing is positive,
  \<^verbatim>\<open>gatherOpponentHistory\<close> maps every id of the player list, and nothing else, to the
  set of the opponents met in the pairings that have two players. For every input, two
  listed players are each in the other's set or neither is, and removing the pairings
  without a second player changes nothing.
\<close>

theorem gatherOpponentHistory_exact_symmetric:
  "(positive_ids rounds \<longrightarrow>
      gatherOpponentHistory players rounds a =
        (if a \<in> player_id ` set players then Some {b. played rounds a b} else None)) \<and>
   (a \<in> player_id ` set players \<and> b \<in> player_id ` set players \<longrightarrow>
      (met (gatherOpponentHistory players rounds) a b \<longleftrightarrow>
       met (gatherOpponentHistory players rounds) b a)) \<and>
   gatherOpponentHistory players (without_byes rounds) = gatherOpponentHistory players rounds"
proof -
  have one: "positive_ids rounds \<longrightarrow>
      gatherOpponentHistory players rounds a =
        (if a \<in> player_id ` set players then Some {b. played rounds a b} else None)"
    by (simp add: gatherOpponentHistory_apply faced_positive)
  have two: "a \<in> player_id ` set players \<and> b \<in> player_id ` set players \<longrightarrow>
            (met (gatherOpponentHistory players rounds) a b \<longleftrightarrow>
             met (gatherOpponentHistory players rounds) b a)"
    using faced_sym [of _ a b] by (simp add: met_gather)
  have three: "gatherOpponentHistory players (without_byes rounds) x =
           gatherOpponentHistory players rounds x" for x
    by (simp add: gatherOpponentHistory_apply faced_without_byes)
  from one two three show ?thesis by (simp add: fun_eq_iff)
qed

theorem gatherOpponentHistory_exact_symmetric_witness:
  "positive_ids example_rounds \<and>
   gatherOpponentHistory example_players example_rounds 1 = Some {2} \<and>
   gatherOpponentHistory example_players example_rounds 2 = Some {1} \<and>
   met (gatherOpponentHistory example_players example_rounds) 1 2 \<and>
   met (gatherOpponentHistory example_players example_rounds) 2 1"
proof -
  have p: "positive_ids example_rounds"
    by (simp add: positive_ids_def example_rounds_def)
  have s1: "{b. played example_rounds 1 b} = {2}"
    by (auto simp: played_def example_rounds_def)
  have s2: "{b. played example_rounds 2 b} = {1}"
    by (auto simp: played_def example_rounds_def)
  have i: "player_id ` set example_players = {1, 2, 3, 4}"
    by (auto simp: example_players_def example_player_def)
  show ?thesis
    using gatherOpponentHistory_exact_symmetric [of example_rounds example_players 1 2]
      gatherOpponentHistory_exact_symmetric [of example_rounds example_players 2 1] p s1 s2 i
    by (simp add: met_def)
qed

text \<open>
  The claim C7 as stated fails for a player with the id 0: the guard
  \<^verbatim>\<open>!pairing.player1 || !pairing.player2\<close> takes the number 0 for a missing player
  and skips the pairing, so player 1 has an empty set although 1 has played 0. It also
  fails for an opponent who is not in the player list: with player 1 alone in the list
  and the pairing 1 against 2, \<^verbatim>\<open>history.get(2)?.add(1)\<close> does nothing, so 2 is in
  the set of 1 while 2 has no set.
\<close>

theorem gatherOpponentHistory_zero_id_counterexample:
  "played (db_rounds zero_id_store) 1 0 \<and>
   1 \<in> player_id ` set (db_players zero_id_store) \<and>
   gatherOpponentHistory (db_players zero_id_store) (db_rounds zero_id_store) 1 = Some {} \<and>
   met (gatherOpponentHistory [example_player 1 ''A'' 1] example_rounds) 1 2 \<and>
   \<not> met (gatherOpponentHistory [example_player 1 ''A'' 1] example_rounds) 2 1"
  by (simp add: played_def zero_id_store_def example_player_def gatherOpponentHistory_def
      history_round_def history_pairing_def history_add_def truthy_def met_def
      example_rounds_def)
section \<open>Round generation gate\<close>

lemma canGenerateNextRound_iff:
  "canGenerateNextRound rounds \<longleftrightarrow> rounds \<noteq> [] \<and> \<not> has_unplayed rounds"
  by (auto simp: canGenerateNextRound_def has_unplayed_def list_all_iff)

lemma postRounds_rejected:
  "\<not> canGenerateNextRound (db_rounds db) \<Longrightarrow>
   postRounds db =
     (BadRequest400 ''All matches must be completed before generating the next round.'', db)"
  by (simp add: postRounds_def getRounds_def)

lemma postRounds_accepted:
  assumes "canGenerateNextRound (db_rounds db)"
  shows "\<exists>out. createSwissPairings
                 (map stat_id (recalculateStandings (db_players db) (db_rounds db)))
                 (gatherOpponentHistory (db_players db) (db_rounds db)) = Inr out \<and>
           postRounds db =
             (Created201 \<lparr> round_id = last_round_id db + 1,
                            roundNumber = length (db_rounds db) + 1,
                            pairings = new_pairings (last_match_id db) out \<rparr>,
              db\<lparr> db_rounds := db_rounds db @
                     [\<lparr> round_id = last_round_id db + 1,
                        roundNumber = length (db_rounds db) + 1,
                        pairings = new_pairings (last_match_id db) out \<rparr>],
                  last_round_id := last_round_id db + 1,
                  last_match_id := last_match_id db + length out \<rparr>)"
proof -
  obtain out where out:
    "createSwissPairings (map stat_id (recalculateStandings (db_players db) (db_rounds db)))
       (gatherOpponentHistory (db_players db) (db_rounds db)) = Inr out"
    using createSwissPairings_result by blast
  show ?thesis
    using assms out by (simp add: postRounds_def getRounds_def getPlayers_def Let_def)
qed

text \<open>
  C3, as the code has it. \<^verbatim>\<open>canGenerateNextRound(rounds)\<close> is true exactly when
  \<open>rounds\<close> is not empty and no pairing in it has result \<open>UNPLAYED\<close>.
  \<^verbatim>\<open>POST /api/rounds\<close> answers 400 and leaves the store as it was exactly when the round
  history is empty or holds an \<open>UNPLAYED\<close> pairing; otherwise it answers 201 and
  appends the new round.
\<close>

theorem postRounds_rejected_iff:
  "(canGenerateNextRound rounds \<longleftrightarrow> rounds \<noteq> [] \<and> \<not> has_unplayed rounds) \<and>
   (if getRounds db = [] \<or> has_unplayed (getRounds db)
    then postRounds db =
           (BadRequest400 ''All matches must be completed before generating the next round.'', db)
    else \<exists>r. fst (postRounds db) = Created201 r \<and>
             snd (postRounds db)
               = db\<lparr> db_rounds := db_rounds db @ [r], last_round_id := round_id r,
                     last_match_id := last_match_id db + length (pairings r) \<rparr>)"
proof -
  have gate: "canGenerateNextRound rounds \<longleftrightarrow> rounds \<noteq> [] \<and> \<not> has_unplayed rounds"
    by (rule canGenerateNextRound_iff)
  show ?thesis
  proof (cases "getRounds db = [] \<or> has_unplayed (getRounds db)")
    case True
    then have "\<not> canGenerateNextRound (db_rounds db)"
      by (auto simp: canGenerateNextRound_iff getRounds_def)
    then show ?thesis
      using True gate postRounds_rejected by simp
  next
    case False
    then have "canGenerateNextRound (db_rounds db)"
      by (auto simp: canGenerateNextRound_iff getRounds_def)
    from postRounds_accepted [OF this] obtain out where
      "postRounds db =
             (Created201 \<lparr> round_id = last_round_id db + 1,
                            roundNumber = length (db_rounds db) + 1,
                            pairings = new_pairings (last_match_id db) out \<rparr>,
              db\<lparr> db_rounds := db_rounds db @
                     [\<lparr> round_id = last_round_id db + 1,
                        roundNumber = length (db_rounds db) + 1,
                        pairings = new_pairings (last_match_id db) out \<rparr>],
                  last_round_id := last_round_id db + 1,
                  last_match_id := last_match_id db + length out \<rparr>)"
      by blast
    then show ?thesis
      using False gate by (simp add: new_pairings_def)
  qed
qed

theorem postRounds_rejected_iff_witness:
  "canGenerateNextRound example_rounds \<and> \<not> has_unplayed example_rounds \<and>
   (\<exists>r. fst (postRounds example_store) = Created201 r \<and>
        db_rounds (snd (postRounds example_store)) = example_rounds @ [r])"
proof -
  have u: "\<not> has_unplayed example_rounds"
    by (simp add: has_unplayed_def example_rounds_def)
  have n: "example_rounds \<noteq> []"
    by (simp add: example_rounds_def)
  have g: "getRounds example_store = example_rounds"
    by (simp add: getRounds_def example_store_def)
  have d: "db_rounds example_store = example_rounds"
    by (simp add: example_store_def)
  show ?thesis
    using postRounds_rejected_iff [of example_rounds example_store] u n g d
    by auto
qed

text \<open>
  The claim C3 as stated fails for the empty round history: no pairing is \<open>UNPLAYED\<close>,
  yet \<^verbatim>\<open>canGenerateNextRound\<close> is false and the request is rejected.
\<close>

theorem canGenerateNextRound_empty_counterexample:
  "\<not> (canGenerateNextRound [] \<longleftrightarrow> \<not> has_unplayed []) \<and>
   \<not> has_unplayed (getRounds empty_store) \<and>
   postRounds empty_store =
     (BadRequest400 ''All matches must be completed before generating the next round.'',
      empty_store)"
  by (simp add: canGenerateNextRound_def has_unplayed_def postRounds_def getRounds_def
      empty_store_def)

section \<open>setAdjustment\<close>

lemma stored_adjustment_eq:
  "(if isFinite n then (case n of Finite x \<Rightarrow> x | _ \<Rightarrow> 0) else 0) = stored_adjustment n"
  by (cases n) (simp_all add: stored_adjustment_def)

lemma setAdjustment_throws:
  "to_string_throws v \<Longrightarrow>
   setAdjustment parse_string db playerId v =
     (ServerError500 ''Cannot convert object to primitive value'', db)"
  by (simp add: setAdjustment_def parseFloat_def)

lemma setAdjustment_eq:
  assumes "\<not> to_string_throws v"
  shows "setAdjustment parse_string db playerId v =
     (if playerId \<in> player_id ` set (db_players db) then NoContent204
      else NotFound404 ''Player not found'',
      with_adjustment db playerId (stored_adjustment (parse_string v)))"
proof -
  have c: "length (filter (\<lambda>p. player_id p = playerId) (db_players db)) = 0 \<longleftrightarrow>
        playerId \<notin> player_id ` set (db_players db)"
    by (auto simp: filter_empty_conv)
  have p: "parseFloat parse_string v = Inr (parse_string v)"
    using assms by (simp add: parseFloat_def)
  show ?thesis
    unfolding setAdjustment_def p Let_def stored_adjustment_eq with_adjustment_def
    using c by auto
qed

text \<open>
  C9, as the code has it. For an existing player and an \<^verbatim>\<open>addScore\<close> value that
  \<^verbatim>\<open>Number.parseFloat\<close> converts without throwing, \<^verbatim>\<open>setAdjustment\<close> always answers
  204: when parsing gives a finite number that number is stored for the player, and when
  parsing gives \<open>NaN\<close> or an infinity 0 is stored. No row of another player changes.
\<close>

theorem setAdjustment_coerces:
  assumes "playerId \<in> player_id ` set (db_players db)" and "\<not> to_string_throws v"
  shows "setAdjustment parse_string db playerId v =
           (NoContent204, with_adjustment db playerId (stored_adjustment (parse_string v))) \<and>
         (\<forall>x. parse_string v = Finite x \<longrightarrow> stored_adjustment (parse_string v) = x) \<and>
         (\<not> isFinite (parse_string v) \<longrightarrow> stored_adjustment (parse_string v) = 0) \<and>
         (\<forall>p\<in>set (db_players (snd (setAdjustment parse_string db playerId v))).
            player_id p = playerId \<longrightarrow> addScore p = stored_adjustment (parse_string v))"
proof -
  have "\<not> isFinite n \<longrightarrow> stored_adjustment n = 0" for n
    by (cases n) (simp_all add: stored_adjustment_def)
  then show ?thesis
    using assms(1)
    by (auto simp: setAdjustment_eq [OF assms(2)] stored_adjustment_def with_adjustment_def)
qed

theorem setAdjustment_coerces_witness:
  "2 \<in> player_id ` set (db_players example_store) \<and>
   setAdjustment example_parse example_store 2 (JString ''abc'')
     = (NoContent204, with_adjustment example_store 2 0) \<and>
   setAdjustment example_parse example_store 2 (JString ''Infinity'')
     = (NoContent204, with_adjustment example_store 2 0) \<and>
   setAdjustment example_parse example_store 2 (JObject [(''value'', JNumber (Finite 1))])
     = (NoContent204, with_adjustment example_store 2 0) \<and>
   setAdjustment example_parse example_store 2 (JString ''2.5'')
     = (NoContent204, with_adjustment example_store 2 (5 / 2))"
proof -
  have m: "2 \<in> player_id ` set (db_players example_store)"
    by (simp add: example_store_def example_players_def example_player_def)
  have t: "\<not> to_string_throws (JString s)"
    "\<not> to_string_throws (JObject [(''value'', JNumber (Finite 1))])" for s
    by simp_all
  show ?thesis
    using m setAdjustment_coerces [OF m t(1), of example_parse "''abc''"]
      setAdjustment_coerces [OF m t(1), of example_parse "''Infinity''"]
      setAdjustment_coerces [OF m t(1), of example_parse "''2.5''"]
      setAdjustment_coerces [OF m t(2), of example_parse]
    by (simp add: example_parse_def stored_adjustment_def)
qed

text \<open>
  The claim C9 as stated fails for a value whose conversion to a string throws: the
  request body \<^verbatim>\<open>{"addScore": {"toString": 1}}\<close> for an existing player is answered
  with status 500, and nothing is stored.
\<close>

theorem setAdjustment_unconvertible_counterexample:
  "2 \<in> player_id ` set (db_players example_store) \<and>
   setAdjustment example_parse example_store 2 (JObject [(''toString'', JNumber (Finite 1))])
     = (ServerError500 ''Cannot convert object to primitive value'', example_store)"
  by (simp add: setAdjustment_def parseFloat_def example_store_def example_players_def
      example_player_def)
section \<open>setMatchResult\<close>

lemma matches_update_match:
  "matches (update_match matchId r db) =
     map (\<lambda>m. if match_id m = matchId then m\<lparr> result := r \<rparr> else m) (matches db)"
  by (simp add: matches_def update_match_def map_concat comp_def)

lemma find_match_unique:
  assumes "distinct (map match_id ms)" "m \<in> set ms"
  shows "find (\<lambda>m'. match_id m' = match_id m) ms = Some m"
  using assms
proof (induction ms)
  case Nil
  then show ?case by simp
next
  case (Cons a ms)
  then show ?case by (cases "match_id a = match_id m") (auto simp: image_iff)
qed

lemma find_result_value:
  "find (\<lambda>r. result_value r = res) RESULT_values = Some r \<longleftrightarrow> result_value r = res"
  by (cases r) (auto simp: RESULT_values_def)

lemma find_result_value_BYE:
  "find (\<lambda>r. result_value r = res) RESULT_values = Some BYE \<Longrightarrow> res = ''BYE''"
  by (simp add: find_result_value)

lemma setMatchResult_rejects_bye_change:
  assumes "distinct (map match_id (matches db))" "m \<in> set (matches db)"
    "player2 m = None" "res \<noteq> ''BYE''"
  shows "\<exists>msg. setMatchResult db (match_id m) res = (BadRequest400 msg, db)"
proof (cases "find (\<lambda>r. result_value r = res) RESULT_values")
  case None
  then show ?thesis by (simp add: setMatchResult_def)
next
  case (Some r)
  then have "r \<noteq> BYE" using assms(4) find_result_value_BYE by blast
  then show ?thesis
    using Some find_match_unique [OF assms(1,2)] assms(3)
    by (simp add: setMatchResult_def)
qed

lemma setMatchResult_keeps_byes:
  assumes "distinct (map match_id (matches db))" "bye_stays_bye db"
  shows "bye_stays_bye (snd (setMatchResult db matchId res))"
proof (cases "find (\<lambda>r. result_value r = res) RESULT_values")
  case None
  then show ?thesis using assms(2) by (simp add: setMatchResult_def)
next
  case (Some r)
  show ?thesis
  proof (cases "find (\<lambda>m. match_id m = matchId) (matches db)")
    case None
    then show ?thesis using Some assms(2) by (simp add: setMatchResult_def)
  next
    case found: (Some m)
    then have m: "m \<in> set (matches db)" "match_id m = matchId"
      by (auto simp: find_Some_iff)
    show ?thesis
    proof (cases "player2 m = None \<and> r \<noteq> BYE")
      case True
      then show ?thesis using Some found assms(2) by (simp add: setMatchResult_def)
    next
      case False
      have only: "m' = m" if "m' \<in> set (matches db)" "match_id m' = matchId" for m'
        using find_match_unique [OF assms(1) that(1)] that(2) found by simp
      have "bye_stays_bye (update_match matchId r db)"
        using assms(2) False only
        by (auto simp: bye_stays_bye_def matches_update_match list_all_iff)
      then show ?thesis
        using Some found False by (auto simp: setMatchResult_def)
    qed
  qed
qed

text \<open>
  C10, as the code has it. For a match without a second player every result value other
  than \<open>BYE\<close> is rejected with status 400 and the store stays as it was; hence a result
  update never takes a bye match away from \<open>BYE\<close>: if every match without a second
  player has result \<open>BYE\<close> before the request, the same holds after it. Match ids
  are unique (the primary key).
\<close>

theorem setMatchResult_bye_guard:
  assumes "distinct (map match_id (matches db))"
  shows "(\<forall>m\<in>set (matches db). player2 m = None \<and> res \<noteq> ''BYE'' \<longrightarrow>
            (\<exists>msg. setMatchResult db (match_id m) res = (BadRequest400 msg, db))) \<and>
         (bye_stays_bye db \<longrightarrow> bye_stays_bye (snd (setMatchResult db matchId res)))"
  using setMatchResult_rejects_bye_change [OF assms] setMatchResult_keeps_byes [OF assms]
  by blast

theorem setMatchResult_bye_guard_witness:
  "distinct (map match_id (matches example_bye_store)) \<and>
   bye_stays_bye example_bye_store \<and>
   setMatchResult example_bye_store 3 ''PLAYER1''
     = (BadRequest400 ''Bye matches must remain BYE'', example_bye_store) \<and>
   bye_stays_bye (snd (setMatchResult example_bye_store 3 ''PLAYER1''))"
proof -
  have d: "distinct (map match_id (matches example_bye_store))"
    by (simp add: matches_def example_bye_store_def)
  have b: "bye_stays_bye example_bye_store"
    by (simp add: bye_stays_bye_def matches_def example_bye_store_def)
  have e: "setMatchResult example_bye_store 3 ''PLAYER1''
     = (BadRequest400 ''Bye matches must remain BYE'', example_bye_store)"
    by (simp add: setMatchResult_def RESULT_values_def matches_def example_bye_store_def)
  show ?thesis
    using setMatchResult_bye_guard [OF d, of "''PLAYER1''" 3] d b e by simp
qed

text \<open>
  The claim C10 as stated fails in the other direction of the invariant: a match with a
  second player can be given the result \<open>BYE\<close>.
\<close>

theorem setMatchResult_bye_on_real_match_counterexample:
  "store_invariant example_store \<and>
   fst (setMatchResult example_store 1 ''BYE'') = NoContent204 \<and>
   \<not> store_invariant (snd (setMatchResult example_store 1 ''BYE''))"
  by (simp add: setMatchResult_def RESULT_values_def matches_def example_store_def
      example_rounds_def store_invariant_def pairing_invariant_def update_match_def)
section \<open>recalculateStandings\<close>

lemma mset_insert_standing: "mset (insert_standing a bs) = add_mset a (mset bs)"
  by (induction bs) auto

lemma mset_sort_standings: "mset (sort_standings xs) = mset xs"
  by (induction xs) (auto simp: sort_standings_def mset_insert_standing)

lemma set_sort_standings: "set (sort_standings xs) = set xs"
  by (metis mset_sort_standings set_mset_mset)

lemma to_standing_fields:
  "stat_id (to_standing players s) = stat_id s"
  "wins (to_standing players s) = wins s"
  "losses (to_standing players s) = losses s"
  "draws (to_standing players s) = draws s"
  "byes (to_standing players s) = byes s"
  "basePoints (to_standing players s) = basePoints s"
  "stat_addScore (to_standing players s) = stat_addScore s"
  "gamesPlayed (to_standing players s) = wins s + losses s + draws s + byes s"
  "totalPoints (to_standing players s) = basePoints s + stat_addScore s"
  "winPercent (to_standing players s) =
     (if wins s + losses s + draws s + byes s = 0 then 0
      else basePoints s / of_nat (wins s + losses s + draws s + byes s) * 100)"
  by (simp_all add: to_standing_def Let_def stats.defs standing.defs)

lemma standing_formula:
  assumes "s \<in> set (recalculateStandings players rounds)"
  shows "gamesPlayed s = wins s + losses s + draws s + byes s \<and>
         totalPoints s = basePoints s + stat_addScore s \<and>
         winPercent s =
           (if gamesPlayed s = 0 then 0 else basePoints s / of_nat (gamesPlayed s) * 100)"
proof -
  obtain st where "s = to_standing players st"
    using assms by (auto simp: recalculateStandings_def set_sort_standings)
  then show ?thesis by (simp add: to_standing_fields)
qed

lemma erase_map_set:
  "erase_adjustment (map_set k v m) = map_set k (v\<lparr> stat_addScore := 0 \<rparr>) (erase_adjustment m)"
  by (induction m) (auto simp: erase_adjustment_def)

lemma erase_map_modify:
  assumes "\<And>s. (f s)\<lparr> stat_addScore := 0 \<rparr> = f (s\<lparr> stat_addScore := 0 \<rparr>)"
  shows "erase_adjustment (map_modify k f m) = map_modify k f (erase_adjustment m)"
  by (induction m) (auto simp: erase_adjustment_def map_modify_def assms)

lemma erase_map_has: "map_has (erase_adjustment m) k = map_has m k"
  by (induction m) (auto simp: erase_adjustment_def map_has_def)

lemma erase_initial:
  "erase_adjustment (foldl (\<lambda>m player. map_set (player_id player) (initial_stats player) m) m players)
     = foldl (\<lambda>m player. map_set (player_id player) (initial_stats player) m)
         (erase_adjustment m) (zero_adjustments players)"
proof (induction players arbitrary: m)
  case Nil
  then show ?case by (simp add: zero_adjustments_def)
next
  case (Cons p players)
  have "(initial_stats p)\<lparr> stat_addScore := 0 \<rparr> = initial_stats (p\<lparr> addScore := 0 \<rparr>)"
    by (simp add: initial_stats_def split: option.splits)
  then show ?case
    using Cons [of "map_set (player_id p) (initial_stats p) m"]
    by (simp add: zero_adjustments_def erase_map_set)
qed

lemma erase_stats_pairing:
  "erase_adjustment (stats_pairing m p) = stats_pairing (erase_adjustment m) p"
proof (cases "map_has m (player1 p)")
  case False
  then show ?thesis by (simp add: stats_pairing_def erase_map_has)
next
  case True
  show ?thesis
  proof (cases "truthy (player2 p)")
    case t: True
    show ?thesis
      by (cases "result p") (simp_all add: stats_pairing_def Let_def erase_map_has True t erase_map_modify)
  next
    case f: False
    show ?thesis
      by (cases "result p") (simp_all add: stats_pairing_def Let_def erase_map_has True f erase_map_modify)
  qed
qed

lemma erase_stats_round:
  "erase_adjustment (foldl stats_pairing m ps) = foldl stats_pairing (erase_adjustment m) ps"
  by (induction ps arbitrary: m) (simp_all add: erase_stats_pairing)

lemma erase_stats_rounds:
  "erase_adjustment (foldl stats_round m rounds) = foldl stats_round (erase_adjustment m) rounds"
  by (induction rounds arbitrary: m) (simp_all add: stats_round_def erase_stats_round)

lemma erase_stats_of:
  "erase_adjustment (stats_of players rounds) = stats_of (zero_adjustments players) rounds"
proof -
  have "erase_adjustment [] = []" by (simp add: erase_adjustment_def)
  then show ?thesis
    by (simp add: stats_of_def erase_stats_rounds erase_initial)
qed

lemma efficiency_to_standing:
  "efficiency (to_standing players (snd e)) =
     efficiency (to_standing players' (snd (case e of (k, s) \<Rightarrow> (k, s\<lparr> stat_addScore := 0 \<rparr>))))"
  by (cases e) (simp add: efficiency_def to_standing_fields)

lemma efficiency_unsorted:
  "map efficiency (map (to_standing players) (map snd (stats_of players rounds))) =
   map efficiency (map (to_standing players')
     (map snd (stats_of (zero_adjustments players) rounds)))"
proof -
  have "map efficiency (map (to_standing players) (map snd m)) =
        map efficiency (map (to_standing players') (map snd (erase_adjustment m)))" for m
    unfolding erase_adjustment_def map_map comp_def
    by (rule map_cong [OF refl]) (rule efficiency_to_standing)
  from this [of "stats_of players rounds"] show ?thesis
    by (simp only: erase_stats_of)
qed

lemma efficiency_independent:
  assumes "zero_adjustments players' = zero_adjustments players"
  shows "mset (map efficiency (recalculateStandings players' rounds)) =
         mset (map efficiency (recalculateStandings players rounds))"
proof -
  have sorted: "mset (map efficiency (recalculateStandings q rounds)) =
        mset (map efficiency (map (to_standing q) (map snd (stats_of q rounds))))" for q
    unfolding recalculateStandings_def mset_map mset_sort_standings ..
  have "map efficiency (map (to_standing players') (map snd (stats_of players' rounds))) =
     map efficiency (map (to_standing players)
       (map snd (stats_of (zero_adjustments players') rounds)))"
    by (rule efficiency_unsorted)
  also have "\<dots> = map efficiency (map (to_standing players)
       (map snd (stats_of (zero_adjustments players) rounds)))"
    by (simp only: assms)
  also have "\<dots> = map efficiency (map (to_standing players) (map snd (stats_of players rounds)))"
    by (rule efficiency_unsorted [symmetric])
  finally show ?thesis
    by (simp only: sorted)
qed

text \<open>
  C8. Every standing returned by \<^verbatim>\<open>recalculateStandings\<close> has
  \<open>gamesPlayed = wins + losses + draws + byes\<close> and a win percentage of 0 when
  \<open>gamesPlayed = 0\<close> and of \<open>basePoints / gamesPlayed * 100\<close> otherwise; and two player
  lists that differ in the manual adjustments only give every player the same games
  played, base points and win percentage.
\<close>

theorem recalculateStandings_winPercent:
  "(\<forall>s\<in>set (recalculateStandings players rounds).
      gamesPlayed s = wins s + losses s + draws s + byes s \<and>
      winPercent s =
        (if gamesPlayed s = 0 then 0 else basePoints s / of_nat (gamesPlayed s) * 100)) \<and>
   (zero_adjustments players' = zero_adjustments players \<longrightarrow>
      mset (map efficiency (recalculateStandings players' rounds)) =
      mset (map efficiency (recalculateStandings players rounds)))"
  using standing_formula [of _ players rounds] efficiency_independent [of players' players rounds]
  by blast

theorem recalculateStandings_winPercent_witness:
  "map (\<lambda>s. (stat_id s, winPercent s)) (recalculateStandings example_players example_rounds)
     = [(1, 100), (3, 50), (4, 50), (2, 0)] \<and>
   zero_adjustments example_adjusted_players = zero_adjustments example_players \<and>
   map stat_id (recalculateStandings example_adjusted_players example_rounds) = [2, 1, 3, 4] \<and>
   mset (map efficiency (recalculateStandings example_adjusted_players example_rounds)) =
   mset (map efficiency (recalculateStandings example_players example_rounds))"
proof -
  have a: "map (\<lambda>s. (stat_id s, winPercent s)) (recalculateStandings example_players example_rounds)
     = [(1, 100), (3, 50), (4, 50), (2, 0)]"
    by code_simp
  have b: "zero_adjustments example_adjusted_players = zero_adjustments example_players"
    by (simp add: zero_adjustments_def example_adjusted_players_def example_players_def
        example_player_def)
  have c: "map stat_id (recalculateStandings example_adjusted_players example_rounds) = [2, 1, 3, 4]"
    by code_simp
  show ?thesis
    using recalculateStandings_winPercent
      [of example_players example_rounds example_adjusted_players] a b c
    by blast
qed
section \<open>Rematches in a generated round\<close>

lemma stat_ids_map_set:
  "set (map (stat_id \<circ> snd) (map_set k v m))
     \<subseteq> insert (stat_id v) (set (map (stat_id \<circ> snd) m))"
proof (induction m)
  case Nil
  then show ?case by simp
next
  case (Cons e m)
  obtain k' v' where e: "e = (k', v')" by (cases e)
  show ?case
  proof (cases "k' = k")
    case True
    then show ?thesis by (simp add: e) blast
  next
    case False
    then have "set (map (stat_id \<circ> snd) (map_set k v (e # m))) =
        insert (stat_id v') (set (map (stat_id \<circ> snd) (map_set k v m)))"
      by (simp add: e)
    then show ?thesis using Cons by (simp add: e) blast
  qed
qed

lemma stat_ids_initial:
  "set (map (stat_id \<circ> snd)
      (foldl (\<lambda>m player. map_set (player_id player) (initial_stats player) m) m players))
   \<subseteq> set (map (stat_id \<circ> snd) m) \<union> player_id ` set players"
proof (induction players arbitrary: m)
  case Nil
  then show ?case by simp
next
  case (Cons p players)
  have i: "stat_id (initial_stats p) = player_id p" by (simp add: initial_stats_def)
  have "set (map (stat_id \<circ> snd)
      (foldl (\<lambda>m player. map_set (player_id player) (initial_stats player) m) m (p # players)))
    \<subseteq> set (map (stat_id \<circ> snd) (map_set (player_id p) (initial_stats p) m))
        \<union> player_id ` set players"
    using Cons [of "map_set (player_id p) (initial_stats p) m"] by simp
  also have "\<dots> \<subseteq> insert (player_id p) (set (map (stat_id \<circ> snd) m))
        \<union> player_id ` set players"
    using stat_ids_map_set [of "player_id p" "initial_stats p" m] i by auto
  finally show ?case by auto
qed

lemma stat_ids_erase_all:
  "map (stat_id \<circ> snd) (map_modify k f m) = map (stat_id \<circ> snd) m"
  if "\<And>s. stat_id (f s) = stat_id s"
  by (induction m) (auto simp: map_modify_def that)

lemma stat_ids_pairing:
  "map (stat_id \<circ> snd) (stats_pairing m p) = map (stat_id \<circ> snd) m"
proof (cases "map_has m (player1 p)")
  case False
  then show ?thesis by (simp add: stats_pairing_def)
next
  case True
  show ?thesis
    by (cases "result p"; cases "truthy (player2 p)")
      (simp_all add: stats_pairing_def Let_def True stat_ids_erase_all)
qed

lemma stat_ids_round:
  "map (stat_id \<circ> snd) (foldl stats_pairing m ps) = map (stat_id \<circ> snd) m"
  by (induction ps arbitrary: m) (simp_all add: stat_ids_pairing)

lemma stat_ids_rounds:
  "map (stat_id \<circ> snd) (foldl stats_round m rounds) = map (stat_id \<circ> snd) m"
  by (induction rounds arbitrary: m) (simp_all add: stats_round_def stat_ids_round)

lemma standings_ids:
  "set (map stat_id (recalculateStandings players rounds)) \<subseteq> player_id ` set players"
proof -
  have "set (map stat_id (recalculateStandings players rounds)) =
        set (map (stat_id \<circ> snd) (stats_of players rounds))"
    by (simp add: recalculateStandings_def set_sort_standings image_image to_standing_fields
        comp_def)
  also have "\<dots> = set (map (stat_id \<circ> snd)
      (foldl (\<lambda>m player. map_set (player_id player) (initial_stats player) m) [] players))"
    by (simp only: stats_of_def stat_ids_rounds)
  also have "\<dots> \<subseteq> player_id ` set players"
    using stat_ids_initial [of "[]" players] by simp
  finally show ?thesis .
qed

lemma new_pairings_nth:
  "i < length out \<Longrightarrow> new_pairings k out ! i = new_pairing k (out ! i, i)"
  by (simp add: new_pairings_def)

lemma length_new_pairings: "length (new_pairings k out) = length out"
  by (simp add: new_pairings_def)

lemma new_pairing_players:
  "player1 (new_pairing k (pr, i)) = pr ! 0"
  "player2 (new_pairing k (pr, i)) = Some q \<longleftrightarrow> length pr \<noteq> 1 \<and> q = pr ! 1"
  by (auto simp: new_pairing_def)

lemma first_some_map_option:
  "map_option g (first_some f xs) = first_some (\<lambda>x. map_option g (f x)) xs"
  by (induction xs) (auto split: option.splits)

lemma backtrack_traced_erase:
  "map_option (map fst) (backtrack_traced h available cur) = backtrack h available (map fst cur)"
proof (induction "length available" arbitrary: available cur rule: less_induct)
  case less
  show ?case
  proof (cases available)
    case Nil
    then show ?thesis by simp
  next
    case (Cons player rest)
    define n where "n = length rest"
    define T1 where "T1 = (\<lambda>i. if met h player (rest ! i) then None
        else backtrack_traced h (remaining rest i) (cur @ [([player, rest ! i], False)]))"
    define T2 where "T2 = (\<lambda>i. backtrack_traced h (remaining rest i)
        (cur @ [([player, rest ! i], True)]))"
    define F1 where "F1 = (\<lambda>i. if met h player (rest ! i) then None
        else backtrack h (remaining rest i) (map fst cur @ [[player, rest ! i]]))"
    define F2 where "F2 = (\<lambda>i. backtrack h (remaining rest i)
        (map fst cur @ [[player, rest ! i]]))"
    have traced: "backtrack_traced h available cur =
        (case first_some T1 [0..<n] of Some s \<Rightarrow> Some s | None \<Rightarrow> first_some T2 [0..<n])"
      unfolding Cons T1_def T2_def n_def by simp
    have plain: "backtrack h available (map fst cur) =
        (case first_some F1 [0..<n] of Some s \<Rightarrow> Some s | None \<Rightarrow> first_some F2 [0..<n])"
      unfolding Cons F1_def F2_def n_def by simp
    have rec: "map_option (map fst) (backtrack_traced h (remaining rest i) (cur @ [t])) =
        backtrack h (remaining rest i) (map fst cur @ [fst t])" if "i < n" for i t
    proof -
      have "length (remaining rest i) < length available"
        using that by (simp add: length_remaining n_def Cons)
      from less [OF this, of "cur @ [t]"] show ?thesis by simp
    qed
    have e1: "map_option (map fst) (first_some T1 [0..<n]) = first_some F1 [0..<n]"
      unfolding first_some_map_option
      by (rule first_some_cong) (auto simp: T1_def F1_def rec)
    have e2: "map_option (map fst) (first_some T2 [0..<n]) = first_some F2 [0..<n]"
      unfolding first_some_map_option
      by (rule first_some_cong) (auto simp: T2_def F2_def rec)
    show ?thesis
    proof (cases "first_some T1 [0..<n]")
      case None
      then have "first_some F1 [0..<n] = None" using e1 by simp
      then show ?thesis using None e2 by (simp add: traced plain)
    next
      case (Some s)
      then have "first_some F1 [0..<n] = Some (map fst s)" using e1 by simp
      then show ?thesis using Some by (simp add: traced plain)
    qed
  qed
qed

lemma backtrack_traced_strict:
  "backtrack_traced h available cur = Some s \<Longrightarrow>
   \<exists>ts. s = cur @ ts \<and> (\<forall>t\<in>set ts. \<not> snd t \<longrightarrow> \<not> met h (fst t ! 0) (fst t ! 1))"
proof (induction "length available" arbitrary: available cur rule: less_induct)
  case less
  show ?case
  proof (cases available)
    case Nil
    then show ?thesis using less.prems by simp
  next
    case (Cons player rest)
    define n where "n = length rest"
    define T1 where "T1 = (\<lambda>i. if met h player (rest ! i) then None
        else backtrack_traced h (remaining rest i) (cur @ [([player, rest ! i], False)]))"
    define T2 where "T2 = (\<lambda>i. backtrack_traced h (remaining rest i)
        (cur @ [([player, rest ! i], True)]))"
    have traced: "backtrack_traced h available cur =
        (case first_some T1 [0..<n] of Some s \<Rightarrow> Some s | None \<Rightarrow> first_some T2 [0..<n])"
      unfolding Cons T1_def T2_def n_def by simp
    have rec: "\<exists>ts. s = (cur @ [t]) @ ts \<and>
        (\<forall>t\<in>set ts. \<not> snd t \<longrightarrow> \<not> met h (fst t ! 0) (fst t ! 1))"
      if "i < n" "backtrack_traced h (remaining rest i) (cur @ [t]) = Some s" for i t
    proof -
      have "length (remaining rest i) < length available"
        using that(1) by (simp add: length_remaining n_def Cons)
      from less.hyps [OF this that(2)] show ?thesis .
    qed
    show ?thesis
    proof (cases "first_some T1 [0..<n]")
      case None
      then have "first_some T2 [0..<n] = Some s"
        using less.prems by (simp add: traced)
      then obtain i where i: "i < n" "T2 i = Some s"
        using first_some_picks [of T2 "[0..<n]"] by auto
      from rec [OF i(1), of "([player, rest ! i], True)"] i(2)
      show ?thesis by (auto simp: T2_def)
    next
      case (Some s')
      then have "first_some T1 [0..<n] = Some s"
        using less.prems by (simp add: traced)
      then obtain i where i: "i < n" "T1 i = Some s"
        using first_some_picks [of T1 "[0..<n]"] by auto
      then have nm: "\<not> met h player (rest ! i)"
        and "backtrack_traced h (remaining rest i) (cur @ [([player, rest ! i], False)]) = Some s"
        by (auto simp: T1_def split: if_splits)
      from rec [OF i(1) this(2)] nm
      show ?thesis by auto
    qed
  qed
qed

lemma createSwissPairings_traced_erase:
  "createSwissPairings ids h =
     (case createSwissPairings_traced ids h of Inl e \<Rightarrow> Inl e | Inr traced \<Rightarrow> Inr (map fst traced))"
proof -
  have b: "backtrack h pool [] = map_option (map fst) (backtrack_traced h pool [])" for pool
    by (simp add: backtrack_traced_erase)
  show ?thesis
    unfolding createSwissPairings_def createSwissPairings_traced_def b
    by (auto split: option.splits)
qed

lemma createSwissPairings_traced_strict:
  assumes "createSwissPairings_traced ids h = Inr traced" "t \<in> set traced" "length (fst t) \<noteq> 1"
    "\<not> snd t"
  shows "\<not> met h (fst t ! 0) (fst t ! 1)"
proof -
  define pool where "pool = (if length ids mod 2 = 1 then butlast ids else ids)"
  obtain s where s: "backtrack_traced h pool [] = Some s"
    "traced = s \<or> traced = s @ [([last ids], False)]"
    using assms(1) unfolding createSwissPairings_traced_def pool_def
    by (auto split: option.splits if_splits)
  have "t \<in> set s" using s(2) assms(2,3) by auto
  then show ?thesis
    using backtrack_traced_strict [OF s(1)] assms(4) by auto
qed

lemma createSwissPairings_members:
  assumes "createSwissPairings ids h = Inr out" "pr \<in> set out"
  shows "(length pr = 1 \<or> length pr = 2) \<and> set pr \<subseteq> set ids"
proof -
  obtain ps where ps: "\<forall>p\<in>set ps. length p = 2"
    "mset (concat ps) = mset (if odd (length ids) then butlast ids else ids)"
    "createSwissPairings ids h = Inr (if odd (length ids) then ps @ [[last ids]] else ps)"
    using createSwissPairings_result [of ids h] by blast
  have out: "out = (if odd (length ids) then ps @ [[last ids]] else ps)"
    using ps(3) assms(1) by simp
  have sub: "set (concat ps) \<subseteq> set ids"
  proof -
    have "set (concat ps) = set (if odd (length ids) then butlast ids else ids)"
      using ps(2) by (metis set_mset_mset)
    then show ?thesis by (auto split: if_splits dest: in_set_butlastD)
  qed
  show ?thesis
  proof (cases "pr \<in> set ps")
    case True
    then show ?thesis using ps(1) sub by auto
  next
    case False
    then have "odd (length ids)" "pr = [last ids]"
      using assms(2) out by (auto split: if_splits)
    moreover from this have "ids \<noteq> []" by auto
    ultimately show ?thesis by simp
  qed
qed

lemma postRounds_created:
  assumes "postRounds db = (Created201 r, db')"
  shows "\<exists>out. createSwissPairings
                 (map stat_id (recalculateStandings (db_players db) (db_rounds db)))
                 (gatherOpponentHistory (db_players db) (db_rounds db)) = Inr out \<and>
               r = \<lparr> round_id = last_round_id db + 1,
                     roundNumber = length (db_rounds db) + 1,
                     pairings = new_pairings (last_match_id db) out \<rparr> \<and>
               db_rounds db' = db_rounds db @ [r]"
proof (cases "canGenerateNextRound (db_rounds db)")
  case True
  from postRounds_accepted [OF True] assms show ?thesis by auto
next
  case False
  then show ?thesis using postRounds_rejected [OF False] assms by simp
qed

text \<open>
  C2, as the code has it. In a round generated by \<^verbatim>\<open>POST /api/rounds\<close> from a history
  with positive player ids, a pair of real opponents repeats a pair of an earlier round
  only if the loop that ignores the history appended it. Nothing tells the caller that
  this loop was used: \<^verbatim>\<open>createSwissPairings\<close> returns the pairs without any mark, and
  the response is the new round built from these pairs, which is appended to the stored
  history.
\<close>

theorem postRounds_rematch_only_second_loop:
  assumes "positive_ids (db_rounds db)"
    and "postRounds db = (Created201 r, db')"
  shows "\<exists>traced.
           createSwissPairings_traced
             (map stat_id (recalculateStandings (db_players db) (db_rounds db)))
             (gatherOpponentHistory (db_players db) (db_rounds db)) = Inr traced \<and>
           createSwissPairings
             (map stat_id (recalculateStandings (db_players db) (db_rounds db)))
             (gatherOpponentHistory (db_players db) (db_rounds db)) = Inr (map fst traced) \<and>
           r = \<lparr> round_id = last_round_id db + 1,
                 roundNumber = length (db_rounds db) + 1,
                 pairings = new_pairings (last_match_id db) (map fst traced) \<rparr> \<and>
           db_rounds db' = db_rounds db @ [r] \<and>
           (\<forall>i<length traced. \<forall>q.
              player2 (pairings r ! i) = Some q \<and>
              played (db_rounds db) (player1 (pairings r ! i)) q \<longrightarrow> snd (traced ! i))"
proof -
  define ids where "ids = map stat_id (recalculateStandings (db_players db) (db_rounds db))"
  define h where "h = gatherOpponentHistory (db_players db) (db_rounds db)"
  obtain out where out: "createSwissPairings ids h = Inr out"
    "r = \<lparr> round_id = last_round_id db + 1, roundNumber = length (db_rounds db) + 1,
          pairings = new_pairings (last_match_id db) out \<rparr>"
    "db_rounds db' = db_rounds db @ [r]"
    using postRounds_created [OF assms(2)] unfolding ids_def h_def by blast
  obtain traced where traced: "createSwissPairings_traced ids h = Inr traced"
    "out = map fst traced"
    using out(1) createSwissPairings_traced_erase [of ids h]
    by (cases "createSwissPairings_traced ids h") auto
  have m: "met h a b \<longleftrightarrow> a \<in> player_id ` set (db_players db) \<and> played (db_rounds db) a b"
    for a b
    unfolding h_def by (simp add: met_gather faced_positive [OF assms(1)])
  have marked: "snd (traced ! i)"
    if i: "i < length traced" and q: "player2 (pairings r ! i) = Some q"
      and p: "played (db_rounds db) (player1 (pairings r ! i)) q" for i q
  proof (rule ccontr)
    assume unmarked: "\<not> snd (traced ! i)"
    have io: "i < length out" using i traced(2) by simp
    have pi: "pairings r ! i = new_pairing (last_match_id db) (out ! i, i)"
      using io out(2) by (simp add: new_pairings_nth)
    have li: "length (out ! i) \<noteq> 1" and qq: "q = out ! i ! 1"
      using q by (simp_all add: pi new_pairing_players)
    have p1: "player1 (pairings r ! i) = out ! i ! 0"
      by (simp add: pi new_pairing_players)
    have mem: "(length (out ! i) = 1 \<or> length (out ! i) = 2) \<and> set (out ! i) \<subseteq> set ids"
      using createSwissPairings_members [OF out(1)] io by simp
    then have "out ! i ! 0 \<in> set (out ! i)" using li by (intro nth_mem) auto
    then have "out ! i ! 0 \<in> set ids" using mem by blast
    then have listed: "out ! i ! 0 \<in> player_id ` set (db_players db)"
      using standings_ids [of "db_players db" "db_rounds db"] unfolding ids_def by blast
    have fi: "fst (traced ! i) = out ! i" using i traced(2) by simp
    have "\<not> met h (fst (traced ! i) ! 0) (fst (traced ! i) ! 1)"
      using createSwissPairings_traced_strict [OF traced(1) _ _ unmarked] i li fi
      by simp
    then show False using p listed by (simp add: fi m p1 qq)
  qed
  show ?thesis
    using traced out marked unfolding ids_def h_def by blast
qed

theorem postRounds_rematch_only_second_loop_witness:
  "positive_ids (db_rounds round_robin_store) \<and>
   fst (postRounds round_robin_store) = Created201 round_robin_next \<and>
   played (db_rounds round_robin_store) 1 2 \<and>
   createSwissPairings_traced
     (map stat_id (recalculateStandings (db_players example_bye_store)
        (db_rounds example_bye_store)))
     (gatherOpponentHistory (db_players example_bye_store) (db_rounds example_bye_store))
     = Inr [([1, 5], False), ([3, 4], True), ([2], False)] \<and>
   (\<exists>traced.
      createSwissPairings_traced
        (map stat_id (recalculateStandings (db_players round_robin_store)
           (db_rounds round_robin_store)))
        (gatherOpponentHistory (db_players round_robin_store) (db_rounds round_robin_store))
        = Inr traced \<and>
      map fst traced = [[1, 2], [3, 4]] \<and> snd (traced ! 0))"
proof -
  have p: "positive_ids (db_rounds round_robin_store)"
    by (simp add: positive_ids_def round_robin_store_def example_drawn_def)
  have e: "fst (postRounds round_robin_store) = Created201 round_robin_next"
    by code_simp
  then have r: "postRounds round_robin_store =
      (Created201 round_robin_next, snd (postRounds round_robin_store))"
    by (metis prod.collapse)
  have o: "createSwissPairings
        (map stat_id (recalculateStandings (db_players round_robin_store)
           (db_rounds round_robin_store)))
        (gatherOpponentHistory (db_players round_robin_store) (db_rounds round_robin_store))
        = Inr [[1, 2], [3, 4]]"
    by code_simp
  have b: "played (db_rounds round_robin_store) 1 2"
    by (simp add: played_def round_robin_store_def example_drawn_def)
  have f: "player2 (pairings round_robin_next ! 0) = Some 2"
    "player1 (pairings round_robin_next ! 0) = 1"
    by (simp_all add: round_robin_next_def)
  from postRounds_rematch_only_second_loop [OF p r] obtain traced where t:
    "createSwissPairings_traced
        (map stat_id (recalculateStandings (db_players round_robin_store)
           (db_rounds round_robin_store)))
        (gatherOpponentHistory (db_players round_robin_store) (db_rounds round_robin_store))
        = Inr traced"
    "createSwissPairings
        (map stat_id (recalculateStandings (db_players round_robin_store)
           (db_rounds round_robin_store)))
        (gatherOpponentHistory (db_players round_robin_store) (db_rounds round_robin_store))
        = Inr (map fst traced)"
    "\<forall>i<length traced. \<forall>q.
        player2 (pairings round_robin_next ! i) = Some q \<and>
        played (db_rounds round_robin_store) (player1 (pairings round_robin_next ! i)) q
        \<longrightarrow> snd (traced ! i)"
    by blast
  have m: "map fst traced = [[1, 2], [3, 4]]" using t(2) o by simp
  then have "length traced = 2" by (metis length_map length_Cons list.size(3) numeral_2_eq_2)
  then have "snd (traced ! 0)" using t(3) f b by simp
  with t(1) m have "\<exists>traced.
      createSwissPairings_traced
        (map stat_id (recalculateStandings (db_players round_robin_store)
           (db_rounds round_robin_store)))
        (gatherOpponentHistory (db_players round_robin_store) (db_rounds round_robin_store))
        = Inr traced \<and>
      map fst traced = [[1, 2], [3, 4]] \<and> snd (traced ! 0)"
    by (intro exI [of _ traced]) simp
  moreover have "createSwissPairings_traced
     (map stat_id (recalculateStandings (db_players example_bye_store)
        (db_rounds example_bye_store)))
     (gatherOpponentHistory (db_players example_bye_store) (db_rounds example_bye_store))
     = Inr [([1, 5], False), ([3, 4], True), ([2], False)]"
    by code_simp
  ultimately show ?thesis using p e b by simp
qed

text \<open>
  The claim C2 as stated fails in two ways. A round that repeats a pair is answered
  exactly like a round that does not: the first two stores below get the same response;
  in the first the paired players have met before, in the second they have not. And with
  a player whose id is 0 the pair of round 1 is paired again by the first loop, the one
  that consults the history.
\<close>

theorem postRounds_no_flag_counterexample:
  "fst (postRounds two_player_rematch_store) = Created201 two_player_next \<and>
   fst (postRounds two_player_fresh_store) = Created201 two_player_next \<and>
   played (db_rounds two_player_rematch_store) 1 2 \<and>
   \<not> played (db_rounds two_player_fresh_store) 1 2 \<and>
   fst (postRounds zero_id_store) = Created201 zero_id_next \<and>
   played (db_rounds zero_id_store) 0 1 \<and>
   createSwissPairings_traced
     (map stat_id (recalculateStandings (db_players zero_id_store) (db_rounds zero_id_store)))
     (gatherOpponentHistory (db_players zero_id_store) (db_rounds zero_id_store))
     = Inr [([0, 1], False)]"
proof -
  have a: "fst (postRounds two_player_rematch_store) = Created201 two_player_next"
    by code_simp
  have b: "fst (postRounds two_player_fresh_store) = Created201 two_player_next"
    by code_simp
  have c: "played (db_rounds two_player_rematch_store) 1 2"
    by (simp add: played_def two_player_rematch_store_def)
  have d: "\<not> played (db_rounds two_player_fresh_store) 1 2"
    by (simp add: played_def two_player_fresh_store_def)
  have e: "fst (postRounds zero_id_store) = Created201 zero_id_next"
    by code_simp
  have f: "played (db_rounds zero_id_store) 0 1"
    by (simp add: played_def zero_id_store_def)
  have g: "createSwissPairings_traced
     (map stat_id (recalculateStandings (db_players zero_id_store) (db_rounds zero_id_store)))
     (gatherOpponentHistory (db_players zero_id_store) (db_rounds zero_id_store))
     = Inr [([0, 1], False)]"
    by code_simp
  from a b c d e f g show ?thesis by simp
qed

end
